theory Spec2Isabelle
  imports Main "HOL-Library.Sublist"
begin

section \<open>Data model\<close>

text \<open>
  The attendance module (\<^verbatim>\<open>attendance.js\<close>) and the role lookup of \<^verbatim>\<open>auth/auth.js\<close>
  work on two collections of a hosted document store. A document of the collection
  \<^verbatim>\<open>attendance\<close> has the fields the code writes: \<^verbatim>\<open>date\<close>, \<^verbatim>\<open>status\<close>, \<^verbatim>\<open>endTime\<close>,
  \<^verbatim>\<open>students\<close> and \<^verbatim>\<open>timestamp\<close>; a field that a document does not have is \<open>None\<close>.
  Times are milliseconds since the epoch, as \<^verbatim>\<open>Date.now()\<close> gives them. JavaScript
  numbers are modelled as unbounded integers and strings as ASCII character lists.
\<close>

record attendance_doc =
  date :: "string option"
  status :: "string option"
  endTime :: "int option"
  students :: "string list option"
  timestamp :: "int option"

record user_doc =
  role :: "string option"

text \<open>A request sent to the store: the operation, the collection and the document key.\<close>

datatype request =
  Get string string
  | Set string string
  | SetMerge string string
  | Update string string

text \<open>
  One browser client together with the store it talks to. \<open>currentUser\<close> is the uid of
  \<^verbatim>\<open>window.auth.currentUser\<close> (\<open>None\<close> when nobody is logged in), \<open>authModule\<close> says
  whether \<^verbatim>\<open>window.authModule\<close> is defined, \<open>clock\<close> is the wall clock read by
  \<^verbatim>\<open>Date.now()\<close> and \<^verbatim>\<open>new Date()\<close> (one call of an operation reads one instant).
  \<open>net\<close> schedules the outcome of the coming requests, in order: \<open>Some msg\<close> rejects the
  request with an error whose message is \<open>msg\<close>, \<open>None\<close> lets it through, and past the end
  of the list every request goes through. \<open>requests\<close> records the requests sent,
  \<open>alerts\<close> the texts shown with \<^verbatim>\<open>alert\<close>, \<open>console_errors\<close> the texts logged with
  \<^verbatim>\<open>console.error\<close>, and \<open>attendanceTimerInterval\<close> the module variable of that name
  (\<open>Some d\<close> while a countdown started with \<open>d\<close> seconds is installed).
\<close>

record world =
  attendance :: "string \<rightharpoonup> attendance_doc"
  users :: "string \<rightharpoonup> user_doc"
  currentUser :: "string option"
  authModule :: bool
  clock :: int
  net :: "string option list"
  requests :: "request list"
  alerts :: "string list"
  console_errors :: "string list"
  attendanceTimerInterval :: "int option"

text \<open>A thrown \<^verbatim>\<open>Error\<close> with its message.\<close>

datatype exn = Error string

section \<open>The calendar date of the clock\<close>

text \<open>
  \<^verbatim>\<open>getCurrentDate\<close> returns \<^verbatim>\<open>new Date().toISOString().split('T')[0]\<close>: the UTC
  calendar date of the clock as \<^verbatim>\<open>YYYY-MM-DD\<close>. The conversion from the day number to
  year, month and day is the proleptic Gregorian one of the language standard; years
  outside 0..9999 are written with a sign and six digits.
\<close>

definition digit :: "nat \<Rightarrow> char" where
  "digit n = ''0123456789'' ! (n mod 10)"

fun dec :: "nat \<Rightarrow> nat \<Rightarrow> string" where
  "dec 0 n = []"
| "dec (Suc k) n = dec k (n div 10) @ [digit n]"

definition civil_from_days :: "int \<Rightarrow> int \<times> nat \<times> nat" where
  "civil_from_days z0 =
     (let z = z0 + 719468;
          era = z div 146097;
          doe = z - era * 146097;
          yoe = (doe - doe div 1460 + doe div 36524 - doe div 146096) div 365;
          y = yoe + era * 400;
          doy = doe - (365 * yoe + yoe div 4 - yoe div 100);
          mp = (5 * doy + 2) div 153;
          d = doy - (153 * mp + 2) div 5 + 1;
          m = (if mp < 10 then mp + 3 else mp - 9)
      in (if m \<le> 2 then y + 1 else y, nat m, nat d))"

definition iso_year :: "int \<Rightarrow> string" where
  "iso_year y =
     (if 0 \<le> y \<and> y \<le> 9999 then dec 4 (nat y)
      else if y < 0 then CHR ''-'' # dec 6 (nat (- y))
      else CHR ''+'' # dec 6 (nat y))"

definition iso_date :: "int \<Rightarrow> string" where
  "iso_date ms =
     (case civil_from_days (ms div 86400000) of
        (y, m, d) \<Rightarrow> iso_year y @ ''-'' @ dec 2 m @ ''-'' @ dec 2 d)"

definition getCurrentDate :: "world \<Rightarrow> string" where
  "getCurrentDate w = iso_date (clock w)"

section \<open>The document store\<close>

text \<open>
  Modelled from the spec: the hosted document store and its client library are not part
  of the repository. Section 6 of the specification gives their contract: get by key,
  set and merge by key, an atomic additive update of a set-valued field, and a failure
  of the transport that rejects the request. An update of a document that does not
  exist is rejected, a set creates the document, and the server time written for
  \<^verbatim>\<open>serverTimestamp()\<close> is taken from the same clock.
\<close>

definition next_outcome :: "string option list \<Rightarrow> string option" where
  "next_outcome ns = (case ns of [] \<Rightarrow> None | x # xs \<Rightarrow> x)"

definition sent :: "request \<Rightarrow> world \<Rightarrow> world" where
  "sent r w = w\<lparr>net := tl (net w), requests := requests w @ [r]\<rparr>"

definition request :: "request \<Rightarrow> world \<Rightarrow> string option \<times> world" where
  "request r w = (next_outcome (net w), sent r w)"

definition users_get :: "string \<Rightarrow> world \<Rightarrow> (string + user_doc option) \<times> world" where
  "users_get uid w =
     (case request (Get ''users'' uid) w of
        (Some err, w') \<Rightarrow> (Inl err, w')
      | (None, w') \<Rightarrow> (Inr (users w' uid), w'))"

definition att_get ::
  "string \<Rightarrow> world \<Rightarrow> (string + attendance_doc option) \<times> world" where
  "att_get k w =
     (case request (Get ''attendance'' k) w of
        (Some err, w') \<Rightarrow> (Inl err, w')
      | (None, w') \<Rightarrow> (Inr (attendance w' k), w'))"

definition no_fields :: attendance_doc where
  "no_fields = \<lparr>date = None, status = None, endTime = None, students = None,
     timestamp = None\<rparr>"

text \<open>The fields present in \<open>new\<close> replace those of \<open>old\<close>; the others stay.\<close>

definition merge_fields :: "attendance_doc \<Rightarrow> attendance_doc \<Rightarrow> attendance_doc" where
  "merge_fields new old =
     \<lparr>date = (case date new of None \<Rightarrow> date old | Some v \<Rightarrow> Some v),
      status = (case status new of None \<Rightarrow> status old | Some v \<Rightarrow> Some v),
      endTime = (case endTime new of None \<Rightarrow> endTime old | Some v \<Rightarrow> Some v),
      students = (case students new of None \<Rightarrow> students old | Some v \<Rightarrow> Some v),
      timestamp = (case timestamp new of None \<Rightarrow> timestamp old | Some v \<Rightarrow> Some v)\<rparr>"

definition att_set ::
  "string \<Rightarrow> attendance_doc \<Rightarrow> world \<Rightarrow> (string + unit) \<times> world" where
  "att_set k d w =
     (case request (Set ''attendance'' k) w of
        (Some err, w') \<Rightarrow> (Inl err, w')
      | (None, w') \<Rightarrow> (Inr (), w'\<lparr>attendance := (attendance w')(k \<mapsto> d)\<rparr>))"

definition att_set_merge ::
  "string \<Rightarrow> attendance_doc \<Rightarrow> world \<Rightarrow> (string + unit) \<times> world" where
  "att_set_merge k d w =
     (case request (SetMerge ''attendance'' k) w of
        (Some err, w') \<Rightarrow> (Inl err, w')
      | (None, w') \<Rightarrow>
          (Inr (), w'\<lparr>attendance := (attendance w')(k \<mapsto>
             merge_fields d (case attendance w' k of None \<Rightarrow> no_fields | Some old \<Rightarrow> old))\<rparr>))"

definition att_update ::
  "string \<Rightarrow> attendance_doc \<Rightarrow> world \<Rightarrow> (string + unit) \<times> world" where
  "att_update k d w =
     (case request (Update ''attendance'' k) w of
        (Some err, w') \<Rightarrow> (Inl err, w')
      | (None, w') \<Rightarrow>
          (case attendance w' k of
             None \<Rightarrow> (Inl ''No document to update'', w')
           | Some old \<Rightarrow>
               (Inr (), w'\<lparr>attendance := (attendance w')(k \<mapsto> merge_fields d old)\<rparr>)))"

text \<open>\<^verbatim>\<open>FieldValue.arrayUnion(x)\<close>: the element is added unless it is already there.\<close>

definition arrayUnion :: "string list option \<Rightarrow> string \<Rightarrow> string list" where
  "arrayUnion field x =
     (case field of
        None \<Rightarrow> [x]
      | Some xs \<Rightarrow> if x \<in> set xs then xs else xs @ [x])"

definition att_update_arrayUnion ::
  "string \<Rightarrow> string \<Rightarrow> world \<Rightarrow> (string + unit) \<times> world" where
  "att_update_arrayUnion k x w =
     (case request (Update ''attendance'' k) w of
        (Some err, w') \<Rightarrow> (Inl err, w')
      | (None, w') \<Rightarrow>
          (case attendance w' k of
             None \<Rightarrow> (Inl ''No document to update'', w')
           | Some old \<Rightarrow>
               (Inr (), w'\<lparr>attendance := (attendance w')(k \<mapsto>
                  old\<lparr>students := Some (arrayUnion (students old) x)\<rparr>)\<rparr>)))"

section \<open>The client's effects\<close>

definition alert :: "string \<Rightarrow> world \<Rightarrow> world" where
  "alert msg w = w\<lparr>alerts := alerts w @ [msg]\<rparr>"

definition console_error :: "string \<Rightarrow> string \<Rightarrow> world \<Rightarrow> world" where
  "console_error what err w = w\<lparr>console_errors := console_errors w @ [what @ '' '' @ err]\<rparr>"

text \<open>
  \<^verbatim>\<open>String.prototype.trim\<close> on ASCII strings: tab, line feed, vertical tab, form
  feed, carriage return and space are removed at both ends.
\<close>

definition is_space :: "char \<Rightarrow> bool" where
  "is_space c = (c \<in> set [CHR 0x09, CHR 0x0A, CHR 0x0B, CHR 0x0C, CHR 0x0D, CHR '' ''])"

definition trim :: "string \<Rightarrow> string" where
  "trim s = rev (dropWhile is_space (rev (dropWhile is_space s)))"

text \<open>
  \<^verbatim>\<open>startAttendanceTimer\<close> replaces the countdown; what it draws is not modelled.
\<close>

definition startAttendanceTimer :: "int \<Rightarrow> world \<Rightarrow> world" where
  "startAttendanceTimer durationSeconds w =
     w\<lparr>attendanceTimerInterval := Some durationSeconds\<rparr>"

section \<open>The role lookup (auth.js)\<close>

text \<open>
  \<^verbatim>\<open>userDoc.data().role || null\<close>: an absent or empty role is \<^verbatim>\<open>null\<close>. A rejected
  read is caught, logged, and answered with \<^verbatim>\<open>null\<close> as well.
\<close>

definition getUserRole :: "string \<Rightarrow> world \<Rightarrow> string option \<times> world" where
  "getUserRole uid w =
     (case users_get uid w of
        (Inl err, w') \<Rightarrow> (None, console_error ''Error fetching user role:'' err w')
      | (Inr None, w') \<Rightarrow> (None, w')
      | (Inr (Some userDoc), w') \<Rightarrow>
          (case role userDoc of
             None \<Rightarrow> (None, w')
           | Some r \<Rightarrow> (if r = [] then None else Some r, w')))"

section \<open>The attendance session (attendance.js)\<close>

text \<open>
  The role check shared by the operations: skipped when \<^verbatim>\<open>window.authModule\<close> is not
  defined, otherwise the looked-up role must be the required one.
\<close>

definition check_role :: "string \<Rightarrow> string \<Rightarrow> world \<Rightarrow> bool \<times> world" where
  "check_role uid required w =
     (if authModule w then
        (case getUserRole uid w of (r, w') \<Rightarrow> (r = Some required, w'))
      else (True, w))"

text \<open>
  The \<^verbatim>\<open>catch\<close> of \<^verbatim>\<open>openAttendance\<close>: the error is logged, an alert is shown unless
  the message contains \<^verbatim>\<open>Unauthorized\<close> or \<^verbatim>\<open>authenticated\<close>, and the error is thrown
  again.
\<close>

definition openAttendance_catch :: "string \<Rightarrow> world \<Rightarrow> (exn + unit) \<times> world" where
  "openAttendance_catch err w =
     (let w1 = console_error ''Error opening attendance:'' err w;
          w2 = (if \<not> sublist ''Unauthorized'' err \<and> \<not> sublist ''authenticated'' err
                then alert ''Failed to open attendance. Please try again.'' w1 else w1)
      in (Inl (Error err), w2))"

text \<open>The body of the \<^verbatim>\<open>try\<close> of \<^verbatim>\<open>openAttendance\<close>.\<close>

definition openAttendance_try ::
  "string \<Rightarrow> int \<Rightarrow> int \<Rightarrow> world \<Rightarrow> (exn + unit) \<times> world" where
  "openAttendance_try today end durationSeconds w1 =
     (case att_set ''current''
             \<lparr>date = Some today, status = Some ''open'', endTime = Some end,
              students = None, timestamp = Some (clock w1)\<rparr> w1 of
        (Inl err, w2) \<Rightarrow> openAttendance_catch err w2
      | (Inr u, w2) \<Rightarrow>
          (case att_set_merge today
                  \<lparr>date = None, status = Some ''open'', endTime = Some end,
                   students = Some [], timestamp = Some (clock w2)\<rparr> w2 of
             (Inl err, w3) \<Rightarrow> openAttendance_catch err w3
           | (Inr u', w3) \<Rightarrow> (Inr (), startAttendanceTimer durationSeconds w3)))"

definition openAttendance :: "int \<Rightarrow> world \<Rightarrow> (exn + unit) \<times> world" where
  "openAttendance durationSeconds w =
     (case currentUser w of
        None \<Rightarrow>
          (Inl (Error ''Not authenticated''),
           alert ''You must be logged in to open attendance.'' w)
      | Some uid \<Rightarrow>
          (case check_role uid ''teacher'' w of
             (False, w1) \<Rightarrow>
               (Inl (Error ''Unauthorized: Teacher role required''),
                alert ''Only teachers can open attendance.'' w1)
           | (True, w1) \<Rightarrow>
               (let today = getCurrentDate w1;
                    end = clock w1 + durationSeconds * 1000
                in openAttendance_try today end durationSeconds w1)))"

text \<open>
  \<^verbatim>\<open>closeAttendance\<close>: both updates are inside one \<^verbatim>\<open>try\<close> and the \<^verbatim>\<open>catch\<close> only
  logs. The result says whether the call throws (\<open>Inl\<close>) or returns (\<open>Inr\<close>).
\<close>

definition closeAttendance :: "world \<Rightarrow> (exn + unit) \<times> world" where
  "closeAttendance w =
     (let today = getCurrentDate w
      in case att_update ''current''
                (no_fields\<lparr>status := Some ''closed'', timestamp := Some (clock w)\<rparr>) w of
           (Inl err, w1) \<Rightarrow> (Inr (), console_error ''Error closing attendance:'' err w1)
         | (Inr u, w1) \<Rightarrow>
             (case att_update today
                     (no_fields\<lparr>status := Some ''closed'', timestamp := Some (clock w1)\<rparr>) w1 of
                (Inl err, w2) \<Rightarrow>
                  (Inr (), console_error ''Error closing attendance:'' err w2)
              | (Inr u', w2) \<Rightarrow> (Inr (), w2\<lparr>attendanceTimerInterval := None\<rparr>)))"

text \<open>
  \<^verbatim>\<open>markStudentPresent\<close>: the checks of the caller and of the name come first; the
  \<^verbatim>\<open>try\<close> holds the reads, the checks of the session and the write, and its
  \<^verbatim>\<open>catch\<close> logs, alerts and returns \<^verbatim>\<open>false\<close>.
\<close>

definition markStudentPresent_catch :: "string \<Rightarrow> world \<Rightarrow> bool \<times> world" where
  "markStudentPresent_catch err w =
     (False, alert ''Failed to mark attendance. Please try again.''
               (console_error ''Error marking attendance:'' err w))"

text \<open>
  The expiry test of the readers, \<^verbatim>\<open>endTime && endTime.toDate() < new Date()\<close>: a
  record without an end time never counts as expired.
\<close>

definition past :: "int option \<Rightarrow> int \<Rightarrow> bool" where
  "past end now = (case end of None \<Rightarrow> False | Some e \<Rightarrow> e < now)"

text \<open>The body of the \<^verbatim>\<open>try\<close> of \<^verbatim>\<open>markStudentPresent\<close>.\<close>

definition markStudentPresent_try :: "string \<Rightarrow> string \<Rightarrow> world \<Rightarrow> bool \<times> world" where
  "markStudentPresent_try today studentNameTrimmed w1 =
     (case att_get ''current'' w1 of
        (Inl err, w2) \<Rightarrow> markStudentPresent_catch err w2
      | (Inr None, w2) \<Rightarrow> (False, alert ''Attendance is not open!'' w2)
      | (Inr (Some currentDoc), w2) \<Rightarrow>
          if status currentDoc \<noteq> Some ''open'' then
            (False, alert ''Attendance is not open!'' w2)
          else if past (endTime currentDoc) (clock w2) then
            (case closeAttendance w2 of
               (Inl (Error err), w3) \<Rightarrow> markStudentPresent_catch err w3
             | (Inr u, w3) \<Rightarrow> (False, alert ''Attendance time has expired!'' w3))
          else
            (case att_get today w2 of
               (Inl err, w3) \<Rightarrow> markStudentPresent_catch err w3
             | (Inr None, w3) \<Rightarrow> (False, alert ''Attendance is not open!'' w3)
             | (Inr (Some dateDoc), w3) \<Rightarrow>
                 if status dateDoc \<noteq> Some ''open'' then
                   (False, alert ''Attendance is not open!'' w3)
                 else if studentNameTrimmed \<in>
                     set (case students dateDoc of None \<Rightarrow> [] | Some xs \<Rightarrow> xs) then
                   (False, alert ''You have already marked your attendance!'' w3)
                 else
                   (case att_update_arrayUnion today studentNameTrimmed w3 of
                      (Inl err, w4) \<Rightarrow> markStudentPresent_catch err w4
                    | (Inr u, w4) \<Rightarrow> (True, alert ''Marked present!'' w4))))"

definition markStudentPresent :: "string \<Rightarrow> world \<Rightarrow> bool \<times> world" where
  "markStudentPresent studentName w =
     (case currentUser w of
        None \<Rightarrow> (False, alert ''You must be logged in to mark attendance.'' w)
      | Some uid \<Rightarrow>
          (case check_role uid ''student'' w of
             (False, w1) \<Rightarrow> (False, alert ''Only students can mark attendance.'' w1)
           | (True, w1) \<Rightarrow>
               (let today = getCurrentDate w1;
                    studentNameTrimmed = trim studentName
                in if studentNameTrimmed = [] then
                     (False, alert ''Please enter your name'' w1)
                   else markStudentPresent_try today studentNameTrimmed w1)))"

section \<open>What the listeners deliver\<close>

text \<open>
  The snapshot callback of \<^verbatim>\<open>watchPresentStudents\<close> hands the roster of a per-date
  record to the display: \<^verbatim>\<open>doc.data().students || []\<close>, and the empty list when the
  document does not exist.
\<close>

definition presentStudents :: "attendance_doc option \<Rightarrow> string list" where
  "presentStudents snapshot =
     (case snapshot of
        None \<Rightarrow> []
      | Some doc \<Rightarrow> (case students doc of None \<Rightarrow> [] | Some xs \<Rightarrow> xs))"

text \<open>The stored status of a record, \<open>None\<close> when the record does not exist.\<close>

definition stored_status :: "attendance_doc option \<Rightarrow> string option" where
  "stored_status snapshot = (case snapshot of None \<Rightarrow> None | Some doc \<Rightarrow> status doc)"

text \<open>The stored end time of a record.\<close>

definition stored_endTime :: "attendance_doc option \<Rightarrow> int option" where
  "stored_endTime snapshot = (case snapshot of None \<Rightarrow> None | Some doc \<Rightarrow> endTime doc)"

text \<open>
  What a record holds apart from the field \<^verbatim>\<open>timestamp\<close>, which every write of
  \<^verbatim>\<open>closeAttendance\<close> sets anew.
\<close>

definition other_fields :: "attendance_doc option \<Rightarrow> attendance_doc option" where
  "other_fields snapshot =
     (case snapshot of None \<Rightarrow> None | Some doc \<Rightarrow> Some (doc\<lparr>timestamp := None\<rparr>))"

section \<open>Conditions on the network\<close>

text \<open>No scheduled request is rejected.\<close>

definition reliable :: "world \<Rightarrow> bool" where
  "reliable w = list_all (\<lambda>x. x = None) (net w)"

text \<open>
  Some request sent between the worlds \<open>w\<close> and \<open>w'\<close> was rejected by the transport.
\<close>

definition rejected :: "world \<Rightarrow> world \<Rightarrow> bool" where
  "rejected w w' =
     (\<not> list_all (\<lambda>x. x = None)
          (take (length (requests w') - length (requests w)) (net w)))"

section \<open>A call while time passes\<close>

text \<open>
  Above, the clock stands still during a call. Here it moves: a call of
  \<^verbatim>\<open>markStudentPresent\<close> is cut at each \<^verbatim>\<open>await\<close>, and the stretch of code that runs
  when a request is answered reads the clock of that moment. The code reads the
  clock in three places: \<^verbatim>\<open>getCurrentDate()\<close> after the role check, whose result is
  kept in \<^verbatim>\<open>date\<close> for the rest of the call; \<^verbatim>\<open>new Date()\<close> in the expiry test; and
  \<^verbatim>\<open>getCurrentDate()\<close> at the start of \<^verbatim>\<open>closeAttendance\<close>, kept in its own \<^verbatim>\<open>date\<close>
  for the second update. The server sets \<^verbatim>\<open>timestamp\<close> when it serves an update. A
  stage names the request a suspended call waits for and holds the date that the code
  has computed by then.
\<close>

datatype stage =
  Start
  | AwaitRole string
  | AwaitPointer string
  | AwaitClosePointer string
  | AwaitCloseDay string
  | AwaitDay string
  | AwaitAppend string
  | Returned bool

definition name_checked :: "string \<Rightarrow> world \<Rightarrow> stage \<times> world" where
  "name_checked studentName w =
     (if trim studentName = [] then (Returned False, alert ''Please enter your name'' w)
      else (AwaitPointer (getCurrentDate w), w))"

fun resume :: "string \<Rightarrow> stage \<Rightarrow> world \<Rightarrow> stage \<times> world" where
  "resume studentName Start w =
     (case currentUser w of
        None \<Rightarrow> (Returned False, alert ''You must be logged in to mark attendance.'' w)
      | Some uid \<Rightarrow> if authModule w then (AwaitRole uid, w) else name_checked studentName w)"
| "resume studentName (AwaitRole uid) w =
     (case getUserRole uid w of
        (r, w1) \<Rightarrow>
          if r \<noteq> Some ''student'' then
            (Returned False, alert ''Only students can mark attendance.'' w1)
          else name_checked studentName w1)"
| "resume studentName (AwaitPointer today) w =
     (case att_get ''current'' w of
        (Inl err, w2) \<Rightarrow> (Returned False, snd (markStudentPresent_catch err w2))
      | (Inr None, w2) \<Rightarrow> (Returned False, alert ''Attendance is not open!'' w2)
      | (Inr (Some currentDoc), w2) \<Rightarrow>
          if status currentDoc \<noteq> Some ''open'' then
            (Returned False, alert ''Attendance is not open!'' w2)
          else if past (endTime currentDoc) (clock w2) then
            (AwaitClosePointer (getCurrentDate w2), w2)
          else (AwaitDay today, w2))"
| "resume studentName (AwaitClosePointer closing) w =
     (case att_update ''current''
             (no_fields\<lparr>status := Some ''closed'', timestamp := Some (clock w)\<rparr>) w of
        (Inl err, w1) \<Rightarrow>
          (Returned False, alert ''Attendance time has expired!''
                             (console_error ''Error closing attendance:'' err w1))
      | (Inr u, w1) \<Rightarrow> (AwaitCloseDay closing, w1))"
| "resume studentName (AwaitCloseDay closing) w =
     (case att_update closing
             (no_fields\<lparr>status := Some ''closed'', timestamp := Some (clock w)\<rparr>) w of
        (Inl err, w2) \<Rightarrow>
          (Returned False, alert ''Attendance time has expired!''
                             (console_error ''Error closing attendance:'' err w2))
      | (Inr u, w2) \<Rightarrow>
          (Returned False, alert ''Attendance time has expired!''
                             (w2\<lparr>attendanceTimerInterval := None\<rparr>)))"
| "resume studentName (AwaitDay today) w =
     (case att_get today w of
        (Inl err, w3) \<Rightarrow> (Returned False, snd (markStudentPresent_catch err w3))
      | (Inr None, w3) \<Rightarrow> (Returned False, alert ''Attendance is not open!'' w3)
      | (Inr (Some dateDoc), w3) \<Rightarrow>
          if status dateDoc \<noteq> Some ''open'' then
            (Returned False, alert ''Attendance is not open!'' w3)
          else if trim studentName \<in>
              set (case students dateDoc of None \<Rightarrow> [] | Some xs \<Rightarrow> xs) then
            (Returned False, alert ''You have already marked your attendance!'' w3)
          else (AwaitAppend today, w3))"
| "resume studentName (AwaitAppend today) w =
     (case att_update_arrayUnion today (trim studentName) w of
        (Inl err, w4) \<Rightarrow> (Returned False, snd (markStudentPresent_catch err w4))
      | (Inr u, w4) \<Rightarrow> (Returned True, alert ''Marked present!'' w4))"
| "resume studentName (Returned b) w = (Returned b, w)"

text \<open>
  A call run alone while time passes: each stretch runs at the next reading of the
  clock.
\<close>

fun timed_run :: "int list \<Rightarrow> string \<Rightarrow> stage \<times> world \<Rightarrow> stage \<times> world" where
  "timed_run [] studentName c = c"
| "timed_run (t # ts) studentName c =
     timed_run ts studentName (resume studentName (fst c) ((snd c)\<lparr>clock := t\<rparr>))"

text \<open>
  The stages before the roster is read: a call at one of them has not come past the
  expiry test, or has found the session expired.
\<close>

fun before_roster :: "stage \<Rightarrow> bool" where
  "before_roster (AwaitDay today) = False"
| "before_roster (AwaitAppend today) = False"
| "before_roster (Returned b) = (\<not> b)"
| "before_roster s = True"

text \<open>The date a stage holds, if it holds one.\<close>

fun held_date :: "stage \<Rightarrow> string option" where
  "held_date (AwaitPointer today) = Some today"
| "held_date (AwaitClosePointer closing) = Some closing"
| "held_date (AwaitCloseDay closing) = Some closing"
| "held_date (AwaitDay today) = Some today"
| "held_date (AwaitAppend today) = Some today"
| "held_date s = None"

section \<open>Calls of several clients, interleaved\<close>

text \<open>
  A call of \<^verbatim>\<open>markStudentPresent\<close> is suspended at each \<^verbatim>\<open>await\<close>, that is at each
  request to the store, and calls of other clients may run in between. A phase names the
  request a suspended call will send next; \<open>Begin\<close> is the call before its first
  request and \<open>Finished b\<close> the call that has returned \<open>b\<close>. One step of a call sends its
  pending request and runs the code up to the next one. The two requests of
  \<^verbatim>\<open>closeAttendance\<close> are the phases \<open>ClosePointer\<close> and \<open>CloseDay\<close>.
\<close>

datatype phase =
  Begin
  | RoleRead string
  | ReadPointer
  | ClosePointer
  | CloseDay
  | ReadDay
  | Append
  | Finished bool

definition validate_name :: "string \<Rightarrow> world \<Rightarrow> phase \<times> world" where
  "validate_name studentName w =
     (if trim studentName = [] then (Finished False, alert ''Please enter your name'' w)
      else (ReadPointer, w))"

definition mark_caught :: "string \<Rightarrow> world \<Rightarrow> phase \<times> world" where
  "mark_caught err w = (Finished False, snd (markStudentPresent_catch err w))"

fun mark_step :: "string \<Rightarrow> phase \<Rightarrow> world \<Rightarrow> phase \<times> world" where
  "mark_step studentName Begin w =
     (case currentUser w of
        None \<Rightarrow> (Finished False, alert ''You must be logged in to mark attendance.'' w)
      | Some uid \<Rightarrow> if authModule w then (RoleRead uid, w) else validate_name studentName w)"
| "mark_step studentName (RoleRead uid) w =
     (case getUserRole uid w of
        (r, w1) \<Rightarrow>
          if r \<noteq> Some ''student'' then
            (Finished False, alert ''Only students can mark attendance.'' w1)
          else validate_name studentName w1)"
| "mark_step studentName ReadPointer w =
     (case att_get ''current'' w of
        (Inl err, w2) \<Rightarrow> mark_caught err w2
      | (Inr None, w2) \<Rightarrow> (Finished False, alert ''Attendance is not open!'' w2)
      | (Inr (Some currentDoc), w2) \<Rightarrow>
          if status currentDoc \<noteq> Some ''open'' then
            (Finished False, alert ''Attendance is not open!'' w2)
          else if past (endTime currentDoc) (clock w2) then (ClosePointer, w2)
          else (ReadDay, w2))"
| "mark_step studentName ClosePointer w =
     (case att_update ''current''
             (no_fields\<lparr>status := Some ''closed'', timestamp := Some (clock w)\<rparr>) w of
        (Inl err, w1) \<Rightarrow>
          (Finished False, alert ''Attendance time has expired!''
                             (console_error ''Error closing attendance:'' err w1))
      | (Inr u, w1) \<Rightarrow> (CloseDay, w1))"
| "mark_step studentName CloseDay w =
     (case att_update (getCurrentDate w)
             (no_fields\<lparr>status := Some ''closed'', timestamp := Some (clock w)\<rparr>) w of
        (Inl err, w2) \<Rightarrow>
          (Finished False, alert ''Attendance time has expired!''
                             (console_error ''Error closing attendance:'' err w2))
      | (Inr u, w2) \<Rightarrow>
          (Finished False, alert ''Attendance time has expired!''
                             (w2\<lparr>attendanceTimerInterval := None\<rparr>)))"
| "mark_step studentName ReadDay w =
     (case att_get (getCurrentDate w) w of
        (Inl err, w3) \<Rightarrow> mark_caught err w3
      | (Inr None, w3) \<Rightarrow> (Finished False, alert ''Attendance is not open!'' w3)
      | (Inr (Some dateDoc), w3) \<Rightarrow>
          if status dateDoc \<noteq> Some ''open'' then
            (Finished False, alert ''Attendance is not open!'' w3)
          else if trim studentName \<in>
              set (case students dateDoc of None \<Rightarrow> [] | Some xs \<Rightarrow> xs) then
            (Finished False, alert ''You have already marked your attendance!'' w3)
          else (Append, w3))"
| "mark_step studentName Append w =
     (case att_update_arrayUnion (getCurrentDate w) (trim studentName) w of
        (Inl err, w4) \<Rightarrow> mark_caught err w4
      | (Inr u, w4) \<Rightarrow> (Finished True, alert ''Marked present!'' w4))"
| "mark_step studentName (Finished b) w = (Finished b, w)"

text \<open>The number of steps a call may still take; a call that has returned takes none.\<close>

fun rank :: "phase \<Rightarrow> nat" where
  "rank Begin = 5"
| "rank (RoleRead uid) = 4"
| "rank ReadPointer = 3"
| "rank ClosePointer = 2"
| "rank CloseDay = 1"
| "rank ReadDay = 2"
| "rank Append = 1"
| "rank (Finished b) = 0"

text \<open>A call run alone: \<open>k\<close> steps in a row.\<close>

fun mark_run :: "nat \<Rightarrow> string \<Rightarrow> phase \<times> world \<Rightarrow> phase \<times> world" where
  "mark_run 0 studentName c = c"
| "mark_run (Suc k) studentName c =
     mark_run k studentName (mark_step studentName (fst c) (snd c))"

text \<open>The phase of a stage: the same request, without the date.\<close>

fun phase_of :: "stage \<Rightarrow> phase" where
  "phase_of Start = Begin"
| "phase_of (AwaitRole uid) = RoleRead uid"
| "phase_of (AwaitPointer today) = ReadPointer"
| "phase_of (AwaitClosePointer closing) = ClosePointer"
| "phase_of (AwaitCloseDay closing) = CloseDay"
| "phase_of (AwaitDay today) = ReadDay"
| "phase_of (AwaitAppend today) = Append"
| "phase_of (Returned b) = Finished b"

text \<open>
  Several clients and one store. Each client has its own browser state (login, clock,
  network, alerts) in \<open>browser\<close>; the two collections of \<open>browser\<close> are not used, the
  store of the system takes their place when the client takes a step. A client whose
  call has returned takes no step.
\<close>

record client =
  studentName :: string
  phase :: phase
  browser :: world

record system =
  store_attendance :: "string \<rightharpoonup> attendance_doc"
  store_users :: "string \<rightharpoonup> user_doc"
  clients :: "client list"

definition client_step :: "nat \<Rightarrow> system \<Rightarrow> system" where
  "client_step i s =
     (if i < length (clients s) \<and> rank (phase (clients s ! i)) \<noteq> 0 then
        (let c = clients s ! i;
             w = (browser c)\<lparr>attendance := store_attendance s, users := store_users s\<rparr>
         in case mark_step (studentName c) (phase c) w of
              (p', w') \<Rightarrow>
                s\<lparr>store_attendance := attendance w', store_users := users w',
                  clients := (clients s)[i := c\<lparr>phase := p', browser := w'\<rparr>]\<rparr>)
      else s)"

text \<open>A schedule names the client that takes the next step, again and again.\<close>

fun run_schedule :: "nat list \<Rightarrow> system \<Rightarrow> system" where
  "run_schedule [] s = s"
| "run_schedule (i # is) s = run_schedule is (client_step i s)"

text \<open>
  The conditions of the claim about concurrent calls. The caller of a browser passes the
  role check when somebody is logged in and, where the role is looked up, the store has
  the role \<^verbatim>\<open>student\<close> for that user.
\<close>

definition is_student :: "(string \<rightharpoonup> user_doc) \<Rightarrow> world \<Rightarrow> bool" where
  "is_student us w =
     (case currentUser w of
        None \<Rightarrow> False
      | Some uid \<Rightarrow>
          if authModule w then
            (case us uid of None \<Rightarrow> False | Some u \<Rightarrow> role u = Some ''student'')
          else True)"

text \<open>The session of day \<open>D\<close> is open in both records.\<close>

definition open_session :: "system \<Rightarrow> string \<Rightarrow> bool" where
  "open_session s D =
     (stored_status (store_attendance s ''current'') = Some ''open'' \<and>
      stored_status (store_attendance s D) = Some ''open'')"

text \<open>
  A call that is about to start against the open session of day \<open>D\<close>: made by a student
  on that day, before the end time, over a network that rejects nothing, with a name
  that is not empty and not yet in the roster.
\<close>

definition ready :: "system \<Rightarrow> string \<Rightarrow> client \<Rightarrow> bool" where
  "ready s D c =
     (phase c = Begin \<and> is_student (store_users s) (browser c) \<and> reliable (browser c) \<and>
      trim (studentName c) \<noteq> [] \<and> getCurrentDate (browser c) = D \<and>
      \<not> past (stored_endTime (store_attendance s ''current'')) (clock (browser c)) \<and>
      trim (studentName c) \<notin> set (presentStudents (store_attendance s D)))"

text \<open>
  What stays true of a call while the calls run, whatever the others do: its caller and
  its name are as at the start, and it is at a phase of the path to success.
\<close>

definition in_flight ::
  "string \<Rightarrow> (string \<rightharpoonup> user_doc) \<Rightarrow> attendance_doc option \<Rightarrow> client \<Rightarrow> bool" where
  "in_flight D us pointer c =
     (is_student us (browser c) \<and> reliable (browser c) \<and> trim (studentName c) \<noteq> [] \<and>
      getCurrentDate (browser c) = D \<and>
      \<not> past (stored_endTime pointer) (clock (browser c)) \<and>
      (case phase c of
         Begin \<Rightarrow> True
       | RoleRead uid \<Rightarrow> currentUser (browser c) = Some uid \<and> authModule (browser c)
       | ReadPointer \<Rightarrow> True
       | ReadDay \<Rightarrow> True
       | Append \<Rightarrow> True
       | Finished b \<Rightarrow> b
       | _ \<Rightarrow> False))"

text \<open>
  What stays true of the system: users and pointer record are untouched, today's record
  is open, and its roster holds, once each, the names it held at the start and the names
  of the calls that have returned \<^verbatim>\<open>true\<close>.
\<close>

definition marks_inv ::
  "string \<Rightarrow> string list \<Rightarrow> string list \<Rightarrow> (string \<rightharpoonup> user_doc) \<Rightarrow>
     attendance_doc option \<Rightarrow> system \<Rightarrow> bool" where
  "marks_inv D R0 names us pointer s =
     (store_users s = us \<and> store_attendance s ''current'' = pointer \<and>
      stored_status pointer = Some ''open'' \<and>
      stored_status (store_attendance s D) = Some ''open'' \<and>
      map (\<lambda>c. trim (studentName c)) (clients s) = names \<and>
      list_all (in_flight D us pointer) (clients s) \<and>
      distinct (presentStudents (store_attendance s D)) \<and>
      set (presentStudents (store_attendance s D)) =
        set R0 \<union> {names ! j | j. j < length names \<and> phase (clients s ! j) = Finished True})"

section \<open>Example worlds\<close>

text \<open>
  A class with a teacher, two students and a parent, on 3 November 2026 at midnight UTC,
  before any session was opened; the teacher is logged in.
\<close>

definition classroom :: world where
  "classroom =
     \<lparr>attendance = Map.empty,
      users = [''t1'' \<mapsto> \<lparr>role = Some ''teacher''\<rparr>, ''s1'' \<mapsto> \<lparr>role = Some ''student''\<rparr>,
               ''s2'' \<mapsto> \<lparr>role = Some ''student''\<rparr>, ''p1'' \<mapsto> \<lparr>role = Some ''parent''\<rparr>],
      currentUser = Some ''t1'', authModule = True, clock = 1793664000000, net = [],
      requests = [], alerts = [], console_errors = [], attendanceTimerInterval = None\<rparr>"

text \<open>
  The same class after the teacher opened a session of 120 seconds; the student
  \<^verbatim>\<open>s1\<close> is logged in.
\<close>

definition session :: world where
  "session =
     classroom\<lparr>attendance :=
        [''current'' \<mapsto> \<lparr>date = Some ''2026-11-03'', status = Some ''open'',
            endTime = Some 1793664120000, students = None,
            timestamp = Some 1793664000000\<rparr>,
         ''2026-11-03'' \<mapsto> \<lparr>date = None, status = Some ''open'',
            endTime = Some 1793664120000, students = Some [],
            timestamp = Some 1793664000000\<rparr>],
        currentUser := Some ''s1''\<rparr>"

text \<open>
  The class after an \<^verbatim>\<open>openAttendance\<close> whose second write was rejected: the pointer
  record is open, the per-date record was never written.
\<close>

definition half_open :: world where
  "half_open =
     session\<lparr>attendance :=
        [''current'' \<mapsto> \<lparr>date = Some ''2026-11-03'', status = Some ''open'',
            endTime = Some 1793664120000, students = None,
            timestamp = Some 1793664000000\<rparr>]\<rparr>"

text \<open>The open session one second after its end time.\<close>

definition late :: world where
  "late = session\<lparr>clock := 1793664121000\<rparr>"

text \<open>
  A session of 120 seconds opened at 23:59:00 UTC of 3 November 2026, seen at 00:02:00 of
  the next day, one minute after its end time.
\<close>

definition overnight :: world where
  "overnight =
     classroom\<lparr>attendance :=
        [''current'' \<mapsto> \<lparr>date = Some ''2026-11-03'', status = Some ''open'',
            endTime = Some 1793750460000, students = None,
            timestamp = Some 1793750340000\<rparr>,
         ''2026-11-03'' \<mapsto> \<lparr>date = None, status = Some ''open'',
            endTime = Some 1793750460000, students = Some [],
            timestamp = Some 1793750340000\<rparr>],
        currentUser := Some ''s1'', clock := 1793750520000\<rparr>"

text \<open>
  Two students, each in a browser of their own, about to mark themselves present in the
  open session.
\<close>

definition two_students :: system where
  "two_students =
     \<lparr>store_attendance = attendance session, store_users = users session,
      clients =
        [\<lparr>studentName = ''Alice'', phase = Begin, browser = session\<rparr>,
         \<lparr>studentName = ''Bob'', phase = Begin,
          browser = session\<lparr>currentUser := Some ''s2''\<rparr>\<rparr>]\<rparr>"

section \<open>Basic facts\<close>

lemma digit_mem: "digit n \<in> set ''0123456789''"
  unfolding digit_def by (rule nth_mem) simp

lemma iso_date_last: "last (iso_date ms) \<in> set ''0123456789''"
proof -
  obtain y m d where c: "civil_from_days (ms div 86400000) = (y, m, d)"
    by (cases "civil_from_days (ms div 86400000)") auto
  have "dec 2 d = dec 1 (d div 10) @ [digit d]"
    by (simp add: numeral_2_eq_2)
  then have "last (iso_date ms) = digit d"
    by (simp add: iso_date_def c)
  then show ?thesis
    using digit_mem by simp
qed

text \<open>A date never is the key of the pointer record.\<close>

lemma iso_date_not_current: "iso_date ms \<noteq> ''current''"
proof
  assume "iso_date ms = ''current''"
  then have "last (iso_date ms) = CHR ''t''"
    by simp
  with iso_date_last [of ms] show False
    by simp
qed

lemma getCurrentDate_not_current [simp]:
  "getCurrentDate w \<noteq> ''current''" "''current'' \<noteq> getCurrentDate w"
  using iso_date_not_current [of "clock w"] by (auto simp: getCurrentDate_def)

lemma getCurrentDate_upd [simp]:
  "getCurrentDate (w\<lparr>attendance := a\<rparr>) = getCurrentDate w"
  "getCurrentDate (w\<lparr>net := ns\<rparr>) = getCurrentDate w"
  "getCurrentDate (w\<lparr>requests := rs\<rparr>) = getCurrentDate w"
  "getCurrentDate (w\<lparr>alerts := al\<rparr>) = getCurrentDate w"
  "getCurrentDate (w\<lparr>console_errors := c\<rparr>) = getCurrentDate w"
  "getCurrentDate (w\<lparr>attendanceTimerInterval := t\<rparr>) = getCurrentDate w"
  "getCurrentDate (w\<lparr>currentUser := cu\<rparr>) = getCurrentDate w"
  "getCurrentDate (w\<lparr>users := us\<rparr>) = getCurrentDate w"
  by (simp_all add: getCurrentDate_def)

subsection \<open>What the effects leave alone\<close>

lemma sent_proj [simp]:
  "attendance (sent r w) = attendance w" "users (sent r w) = users w"
  "currentUser (sent r w) = currentUser w" "authModule (sent r w) = authModule w"
  "clock (sent r w) = clock w" "alerts (sent r w) = alerts w"
  "console_errors (sent r w) = console_errors w"
  "attendanceTimerInterval (sent r w) = attendanceTimerInterval w"
  "requests (sent r w) = requests w @ [r]" "net (sent r w) = tl (net w)"
  "getCurrentDate (sent r w) = getCurrentDate w"
  by (simp_all add: sent_def)

lemma alert_proj [simp]:
  "attendance (alert m w) = attendance w" "users (alert m w) = users w"
  "currentUser (alert m w) = currentUser w" "authModule (alert m w) = authModule w"
  "clock (alert m w) = clock w" "alerts (alert m w) = alerts w @ [m]"
  "console_errors (alert m w) = console_errors w"
  "attendanceTimerInterval (alert m w) = attendanceTimerInterval w"
  "requests (alert m w) = requests w" "net (alert m w) = net w"
  "getCurrentDate (alert m w) = getCurrentDate w"
  by (simp_all add: alert_def)

lemma console_error_proj [simp]:
  "attendance (console_error m e w) = attendance w"
  "users (console_error m e w) = users w"
  "currentUser (console_error m e w) = currentUser w"
  "authModule (console_error m e w) = authModule w"
  "clock (console_error m e w) = clock w" "alerts (console_error m e w) = alerts w"
  "console_errors (console_error m e w) = console_errors w @ [m @ '' '' @ e]"
  "attendanceTimerInterval (console_error m e w) = attendanceTimerInterval w"
  "requests (console_error m e w) = requests w" "net (console_error m e w) = net w"
  "getCurrentDate (console_error m e w) = getCurrentDate w"
  by (simp_all add: console_error_def)

lemma startAttendanceTimer_proj [simp]:
  "attendance (startAttendanceTimer d w) = attendance w"
  "users (startAttendanceTimer d w) = users w"
  "currentUser (startAttendanceTimer d w) = currentUser w"
  "authModule (startAttendanceTimer d w) = authModule w"
  "clock (startAttendanceTimer d w) = clock w"
  "alerts (startAttendanceTimer d w) = alerts w"
  "console_errors (startAttendanceTimer d w) = console_errors w"
  "attendanceTimerInterval (startAttendanceTimer d w) = Some d"
  "requests (startAttendanceTimer d w) = requests w"
  "net (startAttendanceTimer d w) = net w"
  by (simp_all add: startAttendanceTimer_def)

lemmas prim_defs = request_def users_get_def att_get_def att_set_def att_set_merge_def
  att_update_def att_update_arrayUnion_def

lemmas eval_defs = sent_def alert_def console_error_def startAttendanceTimer_def
  next_outcome_def merge_fields_def no_fields_def arrayUnion_def

subsection \<open>Quiet stretches of the network\<close>

lemma next_outcome_reliable:
  "list_all (\<lambda>x. x = None) ns \<Longrightarrow> next_outcome ns = None"
  by (cases ns) (simp_all add: next_outcome_def)

lemma list_all_tl: "list_all P ns \<Longrightarrow> list_all P (tl ns)"
  by (cases ns) simp_all

lemma quiet_take_Suc:
  "list_all (\<lambda>x. x = None) (take (Suc n) ns) =
     (next_outcome ns = None \<and> list_all (\<lambda>x. x = None) (take n (tl ns)))"
  by (cases ns) (simp_all add: next_outcome_def)

lemma quiet_take_numeral [simp]:
  "list_all (\<lambda>x. x = None) (take (numeral k) ns) =
     (next_outcome ns = None \<and> list_all (\<lambda>x. x = None) (take (pred_numeral k) (tl ns)))"
  by (simp add: numeral_eq_Suc quiet_take_Suc)

lemma quiet_take_1 [simp]:
  "list_all (\<lambda>x. x = None) (take (Suc 0) ns) = (next_outcome ns = None)"
  by (simp add: quiet_take_Suc)

subsection \<open>The role check\<close>

lemma check_role_proj [simp]:
  "attendance (snd (check_role uid r w)) = attendance w"
  "users (snd (check_role uid r w)) = users w"
  "currentUser (snd (check_role uid r w)) = currentUser w"
  "authModule (snd (check_role uid r w)) = authModule w"
  "clock (snd (check_role uid r w)) = clock w"
  "alerts (snd (check_role uid r w)) = alerts w"
  "attendanceTimerInterval (snd (check_role uid r w)) = attendanceTimerInterval w"
  "getCurrentDate (snd (check_role uid r w)) = getCurrentDate w"
  "requests (snd (check_role uid r w)) =
     requests w @ (if authModule w then [Get ''users'' uid] else [])"
  "net (snd (check_role uid r w)) = (if authModule w then tl (net w) else net w)"
  by (simp_all add: check_role_def getUserRole_def prim_defs split: option.split)

lemma check_role_fst:
  "r \<noteq> [] \<Longrightarrow>
     fst (check_role uid r w) =
       (authModule w \<longrightarrow>
          next_outcome (net w) = None \<and> (\<exists>u. users w uid = Some u \<and> role u = Some r))"
  by (auto simp: check_role_def getUserRole_def prim_defs split: option.split)

lemma check_role_getUserRole:
  "authModule w \<Longrightarrow> fst (check_role uid r w) = (fst (getUserRole uid w) = Some r)"
  by (simp add: check_role_def split: prod.split)

subsection \<open>The operations after the role check\<close>

lemma markStudentPresent_eq:
  "markStudentPresent n w =
     (case currentUser w of
        None \<Rightarrow> (False, alert ''You must be logged in to mark attendance.'' w)
      | Some uid \<Rightarrow>
          if \<not> fst (check_role uid ''student'' w) then
            (False, alert ''Only students can mark attendance.''
                      (snd (check_role uid ''student'' w)))
          else if trim n = [] then
            (False, alert ''Please enter your name'' (snd (check_role uid ''student'' w)))
          else markStudentPresent_try (getCurrentDate w) (trim n)
                 (snd (check_role uid ''student'' w)))"
proof (cases "currentUser w")
  case None
  then show ?thesis
    by (simp add: markStudentPresent_def)
next
  case (Some uid)
  obtain b w1 where c: "check_role uid ''student'' w = (b, w1)"
    by (cases "check_role uid ''student'' w")
  have "getCurrentDate w1 = getCurrentDate w"
    using check_role_proj(8) [of uid "''student''" w] c by simp
  then show ?thesis
    using Some c by (cases b) (simp_all add: markStudentPresent_def Let_def)
qed

lemma openAttendance_eq:
  "openAttendance d w =
     (case currentUser w of
        None \<Rightarrow>
          (Inl (Error ''Not authenticated''),
           alert ''You must be logged in to open attendance.'' w)
      | Some uid \<Rightarrow>
          if \<not> fst (check_role uid ''teacher'' w) then
            (Inl (Error ''Unauthorized: Teacher role required''),
             alert ''Only teachers can open attendance.'' (snd (check_role uid ''teacher'' w)))
          else openAttendance_try (getCurrentDate w) (clock w + d * 1000) d
                 (snd (check_role uid ''teacher'' w)))"
proof (cases "currentUser w")
  case None
  then show ?thesis
    by (simp add: openAttendance_def)
next
  case (Some uid)
  obtain b w1 where c: "check_role uid ''teacher'' w = (b, w1)"
    by (cases "check_role uid ''teacher'' w")
  have "getCurrentDate w1 = getCurrentDate w" "clock w1 = clock w"
    using check_role_proj(8,5) [of uid "''teacher''" w] c by simp_all
  then show ?thesis
    using Some c by (cases b) (simp_all add: openAttendance_def Let_def)
qed

subsection \<open>Closing\<close>

lemma close_returns: "fst (closeAttendance w) = Inr ()"
  by (simp add: closeAttendance_def prim_defs Let_def split: option.split)

lemma close_proj [simp]:
  "users (snd (closeAttendance w)) = users w"
  "currentUser (snd (closeAttendance w)) = currentUser w"
  "authModule (snd (closeAttendance w)) = authModule w"
  "clock (snd (closeAttendance w)) = clock w"
  "alerts (snd (closeAttendance w)) = alerts w"
  "getCurrentDate (snd (closeAttendance w)) = getCurrentDate w"
  by (simp_all add: closeAttendance_def prim_defs Let_def getCurrentDate_def
      split: option.split)

lemma merge_fields_students [simp]:
  "students (merge_fields (no_fields\<lparr>status := s, timestamp := t\<rparr>) old) = students old"
  by (simp add: merge_fields_def no_fields_def)

lemma merge_fields_status [simp]:
  "status (merge_fields (no_fields\<lparr>status := Some s, timestamp := t\<rparr>) old) = Some s"
  by (simp add: merge_fields_def no_fields_def)

lemma close_roster: "presentStudents (attendance (snd (closeAttendance w)) k) =
  presentStudents (attendance w k)"
  by (simp add: closeAttendance_def prim_defs Let_def presentStudents_def
      split: option.split)

subsection \<open>The example worlds\<close>

lemma date_classroom: "iso_date 1793664000000 = ''2026-11-03''"
  by code_simp

lemma today_classroom: "getCurrentDate classroom = ''2026-11-03''"
  by (simp add: getCurrentDate_def classroom_def date_classroom)

lemma today_session: "getCurrentDate session = ''2026-11-03''"
  by (simp add: getCurrentDate_def session_def classroom_def date_classroom)

lemma teacher_classroom: "fst (check_role ''t1'' ''teacher'' classroom)"
  by (simp add: check_role_fst classroom_def next_outcome_def)

lemma student_session: "fst (check_role ''s1'' ''student'' session)"
  by (simp add: check_role_fst session_def classroom_def next_outcome_def)

lemmas run_defs = openAttendance_def openAttendance_try_def openAttendance_catch_def
  closeAttendance_def markStudentPresent_def markStudentPresent_try_def
  markStudentPresent_catch_def check_role_def getUserRole_def Let_def prim_defs eval_defs
  getCurrentDate_def date_classroom classroom_def session_def half_open_def late_def past_def

lemma open_classroom: "fst (openAttendance 120 classroom) = Inr ()"
  by (simp add: run_defs)

lemma session_opened:
  "attendance (snd (openAttendance 120 classroom)) = attendance session"
  by (simp add: run_defs)

lemma today_half_open: "getCurrentDate half_open = ''2026-11-03''"
  by (simp add: getCurrentDate_def half_open_def session_def classroom_def date_classroom)

lemma half_open_reached:
  "attendance (snd (openAttendance 120 (classroom\<lparr>net := [None, None, Some ''unavailable'']\<rparr>))) =
     attendance half_open"
  by (simp add: run_defs)

lemma date_late: "iso_date 1793664121000 = ''2026-11-03''"
  by code_simp

lemma today_late: "getCurrentDate late = ''2026-11-03''"
  by (simp add: getCurrentDate_def late_def session_def classroom_def date_late)

lemma student_late: "fst (check_role ''s1'' ''student'' late)"
  by (simp add: check_role_fst late_def session_def classroom_def next_outcome_def)

lemma dates_late:
  "iso_date 1793664121000 = ''2026-11-03''" "iso_date 1793664122000 = ''2026-11-03''"
  "iso_date 1793664123000 = ''2026-11-03''" "iso_date 1793664124000 = ''2026-11-03''"
  "iso_date 1793664125000 = ''2026-11-03''"
  by code_simp+

lemma date_in_flight: "iso_date 1793664119300 = ''2026-11-03''"
  by code_simp

lemma date_before_midnight: "iso_date 1793750340000 = ''2026-11-03''"
  by code_simp

lemma date_after_midnight: "iso_date 1793750520000 = ''2026-11-04''"
  by code_simp

subsection \<open>Marking, step by step\<close>

lemmas try_defs = markStudentPresent_try_def markStudentPresent_catch_def prim_defs Let_def

lemma stored_status_SomeD:
  "stored_status s = Some x \<Longrightarrow> \<exists>doc. s = Some doc \<and> status doc = Some x"
  by (cases s) (simp_all add: stored_status_def)

lemma try_pointer_not_open:
  assumes "next_outcome (net w) = None"
    and "stored_status (attendance w ''current'') \<noteq> Some ''open''"
  shows "markStudentPresent_try t n w =
           (False, alert ''Attendance is not open!'' (sent (Get ''attendance'' ''current'') w))"
proof (cases "attendance w ''current''")
  case None
  with assms(1) show ?thesis
    by (simp add: try_defs)
next
  case (Some cur)
  with assms(2) have "status cur \<noteq> Some ''open''"
    by (simp add: stored_status_def)
  with assms(1) Some show ?thesis
    by (simp add: try_defs)
qed

lemma try_expired:
  assumes "next_outcome (net w) = None"
    and "stored_status (attendance w ''current'') = Some ''open''"
    and "past (stored_endTime (attendance w ''current'')) (clock w)"
  shows "markStudentPresent_try t n w =
           (False, alert ''Attendance time has expired!''
                     (snd (closeAttendance (sent (Get ''attendance'' ''current'') w))))"
proof -
  from assms(2) obtain cur where cur: "attendance w ''current'' = Some cur"
    "status cur = Some ''open''"
    by (auto dest: stored_status_SomeD)
  from assms(3) cur have p: "past (endTime cur) (clock w)"
    by (simp add: stored_endTime_def)
  obtain r v where c: "closeAttendance (sent (Get ''attendance'' ''current'') w) = (r, v)"
    by (cases "closeAttendance (sent (Get ''attendance'' ''current'') w)")
  with close_returns [of "sent (Get ''attendance'' ''current'') w"] have "r = Inr ()"
    by simp
  with assms(1) cur p c show ?thesis
    by (simp add: try_defs)
qed

lemma try_day_not_open:
  assumes "next_outcome (net w) = None" and "next_outcome (tl (net w)) = None"
    and "stored_status (attendance w ''current'') = Some ''open''"
    and "\<not> past (stored_endTime (attendance w ''current'')) (clock w)"
    and "stored_status (attendance w t) \<noteq> Some ''open''"
  shows "markStudentPresent_try t n w =
           (False, alert ''Attendance is not open!''
                     (sent (Get ''attendance'' t) (sent (Get ''attendance'' ''current'') w)))"
proof -
  from assms(3) obtain cur where cur: "attendance w ''current'' = Some cur"
    "status cur = Some ''open''"
    by (auto dest: stored_status_SomeD)
  from assms(4) cur have p: "\<not> past (endTime cur) (clock w)"
    by (simp add: stored_endTime_def)
  show ?thesis
  proof (cases "attendance w t")
    case None
    with assms(1,2) cur p show ?thesis
      by (simp add: try_defs)
  next
    case (Some day)
    with assms(5) have "status day \<noteq> Some ''open''"
      by (simp add: stored_status_def)
    with assms(1,2) cur p Some show ?thesis
      by (simp add: try_defs)
  qed
qed

lemma try_already:
  assumes "next_outcome (net w) = None" and "next_outcome (tl (net w)) = None"
    and "stored_status (attendance w ''current'') = Some ''open''"
    and "\<not> past (stored_endTime (attendance w ''current'')) (clock w)"
    and "stored_status (attendance w t) = Some ''open''"
    and "n \<in> set (presentStudents (attendance w t))"
  shows "markStudentPresent_try t n w =
           (False, alert ''You have already marked your attendance!''
                     (sent (Get ''attendance'' t) (sent (Get ''attendance'' ''current'') w)))"
proof -
  from assms(3) obtain cur where cur: "attendance w ''current'' = Some cur"
    "status cur = Some ''open''"
    by (auto dest: stored_status_SomeD)
  from assms(4) cur have p: "\<not> past (endTime cur) (clock w)"
    by (simp add: stored_endTime_def)
  from assms(5) obtain day where day: "attendance w t = Some day" "status day = Some ''open''"
    by (auto dest: stored_status_SomeD)
  from assms(6) day have "n \<in> set (case students day of None \<Rightarrow> [] | Some xs \<Rightarrow> xs)"
    by (simp add: presentStudents_def)
  with assms(1,2) cur p day show ?thesis
    by (simp add: try_defs)
qed

lemma try_marked:
  assumes "next_outcome (net w) = None" and "next_outcome (tl (net w)) = None"
    and "next_outcome (tl (tl (net w))) = None"
    and "stored_status (attendance w ''current'') = Some ''open''"
    and "\<not> past (stored_endTime (attendance w ''current'')) (clock w)"
    and "attendance w t = Some day" and "status day = Some ''open''"
    and "n \<notin> set (presentStudents (attendance w t))"
  shows "markStudentPresent_try t n w =
           (True, alert ''Marked present!''
              ((sent (Update ''attendance'' t) (sent (Get ''attendance'' t)
                  (sent (Get ''attendance'' ''current'') w)))
                 \<lparr>attendance := (attendance w)(t \<mapsto>
                    day\<lparr>students := Some (presentStudents (attendance w t) @ [n])\<rparr>)\<rparr>))"
proof -
  from assms(4) obtain cur where cur: "attendance w ''current'' = Some cur"
    "status cur = Some ''open''"
    by (auto dest: stored_status_SomeD)
  from assms(5) cur have p: "\<not> past (endTime cur) (clock w)"
    by (simp add: stored_endTime_def)
  from assms(8,6) have m: "n \<notin> set (case students day of None \<Rightarrow> [] | Some xs \<Rightarrow> xs)"
    by (simp add: presentStudents_def)
  then have "arrayUnion (students day) n = presentStudents (attendance w t) @ [n]"
    using assms(6) by (cases "students day") (simp_all add: arrayUnion_def presentStudents_def)
  with assms(1,2,3,6,7) cur p m show ?thesis
    by (simp add: try_defs)
qed

lemma try_rejected_current:
  assumes "next_outcome (net w) = Some err"
  shows "markStudentPresent_try t n w =
           markStudentPresent_catch err (sent (Get ''attendance'' ''current'') w)"
  using assms by (simp add: markStudentPresent_try_def prim_defs)

lemma try_rejected_day:
  assumes "next_outcome (net w) = None" and "next_outcome (tl (net w)) = Some err"
    and "stored_status (attendance w ''current'') = Some ''open''"
    and "\<not> past (stored_endTime (attendance w ''current'')) (clock w)"
  shows "markStudentPresent_try t n w =
           markStudentPresent_catch err
             (sent (Get ''attendance'' t) (sent (Get ''attendance'' ''current'') w))"
proof -
  from assms(3) obtain cur where cur: "attendance w ''current'' = Some cur"
    "status cur = Some ''open''"
    by (auto dest: stored_status_SomeD)
  from assms(4) cur have p: "\<not> past (endTime cur) (clock w)"
    by (simp add: stored_endTime_def)
  with assms(1,2) cur show ?thesis
    by (simp add: markStudentPresent_try_def prim_defs)
qed

lemma try_rejected_update:
  assumes "next_outcome (net w) = None" and "next_outcome (tl (net w)) = None"
    and "next_outcome (tl (tl (net w))) = Some err"
    and "stored_status (attendance w ''current'') = Some ''open''"
    and "\<not> past (stored_endTime (attendance w ''current'')) (clock w)"
    and "stored_status (attendance w t) = Some ''open''"
    and "n \<notin> set (presentStudents (attendance w t))"
  shows "markStudentPresent_try t n w =
           markStudentPresent_catch err
             (sent (Update ''attendance'' t) (sent (Get ''attendance'' t)
                (sent (Get ''attendance'' ''current'') w)))"
proof -
  from assms(4) obtain cur where cur: "attendance w ''current'' = Some cur"
    "status cur = Some ''open''"
    by (auto dest: stored_status_SomeD)
  from assms(5) cur have p: "\<not> past (endTime cur) (clock w)"
    by (simp add: stored_endTime_def)
  from assms(6) obtain day where day: "attendance w t = Some day" "status day = Some ''open''"
    by (auto dest: stored_status_SomeD)
  from assms(7) day have "n \<notin> set (case students day of None \<Rightarrow> [] | Some xs \<Rightarrow> xs)"
    by (simp add: presentStudents_def)
  with assms(1,2,3) cur p day show ?thesis
    by (cases "students day") (simp_all add: markStudentPresent_try_def prim_defs)
qed

text \<open>The eight ways through the \<^verbatim>\<open>try\<close>, in the order of the code.\<close>

lemma try_cases [case_names rejected_current pointer_not_open expired rejected_day
    day_not_open already rejected_update marked]:
  obtains
    err where "next_outcome (net w) = Some err"
      "markStudentPresent_try t n w =
         markStudentPresent_catch err (sent (Get ''attendance'' ''current'') w)"
  | "next_outcome (net w) = None"
      "stored_status (attendance w ''current'') \<noteq> Some ''open''"
      "markStudentPresent_try t n w =
         (False, alert ''Attendance is not open!'' (sent (Get ''attendance'' ''current'') w))"
  | "next_outcome (net w) = None"
      "stored_status (attendance w ''current'') = Some ''open''"
      "past (stored_endTime (attendance w ''current'')) (clock w)"
      "markStudentPresent_try t n w =
         (False, alert ''Attendance time has expired!''
                   (snd (closeAttendance (sent (Get ''attendance'' ''current'') w))))"
  | err where "next_outcome (net w) = None" "next_outcome (tl (net w)) = Some err"
      "stored_status (attendance w ''current'') = Some ''open''"
      "\<not> past (stored_endTime (attendance w ''current'')) (clock w)"
      "markStudentPresent_try t n w =
         markStudentPresent_catch err
           (sent (Get ''attendance'' t) (sent (Get ''attendance'' ''current'') w))"
  | "next_outcome (net w) = None" "next_outcome (tl (net w)) = None"
      "stored_status (attendance w ''current'') = Some ''open''"
      "\<not> past (stored_endTime (attendance w ''current'')) (clock w)"
      "stored_status (attendance w t) \<noteq> Some ''open''"
      "markStudentPresent_try t n w =
         (False, alert ''Attendance is not open!''
                   (sent (Get ''attendance'' t) (sent (Get ''attendance'' ''current'') w)))"
  | "next_outcome (net w) = None" "next_outcome (tl (net w)) = None"
      "stored_status (attendance w ''current'') = Some ''open''"
      "\<not> past (stored_endTime (attendance w ''current'')) (clock w)"
      "stored_status (attendance w t) = Some ''open''"
      "n \<in> set (presentStudents (attendance w t))"
      "markStudentPresent_try t n w =
         (False, alert ''You have already marked your attendance!''
                   (sent (Get ''attendance'' t) (sent (Get ''attendance'' ''current'') w)))"
  | err where "next_outcome (net w) = None" "next_outcome (tl (net w)) = None"
      "next_outcome (tl (tl (net w))) = Some err"
      "stored_status (attendance w ''current'') = Some ''open''"
      "\<not> past (stored_endTime (attendance w ''current'')) (clock w)"
      "stored_status (attendance w t) = Some ''open''"
      "n \<notin> set (presentStudents (attendance w t))"
      "markStudentPresent_try t n w =
         markStudentPresent_catch err
           (sent (Update ''attendance'' t) (sent (Get ''attendance'' t)
              (sent (Get ''attendance'' ''current'') w)))"
  | day where "next_outcome (net w) = None" "next_outcome (tl (net w)) = None"
      "next_outcome (tl (tl (net w))) = None"
      "stored_status (attendance w ''current'') = Some ''open''"
      "\<not> past (stored_endTime (attendance w ''current'')) (clock w)"
      "attendance w t = Some day" "status day = Some ''open''"
      "n \<notin> set (presentStudents (attendance w t))"
      "markStudentPresent_try t n w =
         (True, alert ''Marked present!''
            ((sent (Update ''attendance'' t) (sent (Get ''attendance'' t)
                (sent (Get ''attendance'' ''current'') w)))
               \<lparr>attendance := (attendance w)(t \<mapsto>
                  day\<lparr>students := Some (presentStudents (attendance w t) @ [n])\<rparr>)\<rparr>))"
proof (cases "next_outcome (net w)")
  case (Some err)
  then show ?thesis
    using that(1) try_rejected_current by blast
next
  case o1: None
  show ?thesis
  proof (cases "stored_status (attendance w ''current'') = Some ''open''")
    case False
    with o1 show ?thesis
      using that(2) try_pointer_not_open by blast
  next
    case op: True
    show ?thesis
    proof (cases "past (stored_endTime (attendance w ''current'')) (clock w)")
      case True
      with o1 op show ?thesis
        using that(3) try_expired by blast
    next
      case fresh: False
      show ?thesis
      proof (cases "next_outcome (tl (net w))")
        case (Some err)
        with o1 op fresh show ?thesis
          using that(4) try_rejected_day by blast
      next
        case o2: None
        show ?thesis
        proof (cases "stored_status (attendance w t) = Some ''open''")
          case False
          with o1 o2 op fresh show ?thesis
            using that(5) try_day_not_open by blast
        next
          case day_open: True
          then obtain day where day: "attendance w t = Some day" "status day = Some ''open''"
            by (auto dest: stored_status_SomeD)
          show ?thesis
          proof (cases "n \<in> set (presentStudents (attendance w t))")
            case True
            with o1 o2 op fresh day_open show ?thesis
              using that(6) try_already by blast
          next
            case new: False
            show ?thesis
            proof (cases "next_outcome (tl (tl (net w)))")
              case (Some err)
              with o1 o2 op fresh day_open new show ?thesis
                using that(7) try_rejected_update by blast
            next
              case None
              with o1 o2 op fresh day new show ?thesis
                using that(8) try_marked by blast
            qed
          qed
        qed
      qed
    qed
  qed
qed

subsection \<open>What closing leaves in the store\<close>

lemma close_attendance:
  "attendance (snd (closeAttendance w)) =
     (if next_outcome (net w) \<noteq> None then attendance w
      else case attendance w ''current'' of
        None \<Rightarrow> attendance w
      | Some cur \<Rightarrow>
          if next_outcome (tl (net w)) \<noteq> None then
            (attendance w)(''current'' \<mapsto> merge_fields
               (no_fields\<lparr>status := Some ''closed'', timestamp := Some (clock w)\<rparr>) cur)
          else case attendance w (getCurrentDate w) of
            None \<Rightarrow>
              (attendance w)(''current'' \<mapsto> merge_fields
                 (no_fields\<lparr>status := Some ''closed'', timestamp := Some (clock w)\<rparr>) cur)
          | Some day \<Rightarrow>
              (attendance w)
                (''current'' \<mapsto> merge_fields
                   (no_fields\<lparr>status := Some ''closed'', timestamp := Some (clock w)\<rparr>) cur,
                 getCurrentDate w \<mapsto> merge_fields
                   (no_fields\<lparr>status := Some ''closed'', timestamp := Some (clock w)\<rparr>) day))"
  by (simp add: closeAttendance_def prim_defs Let_def split: option.split)

lemma close_attendance_cong:
  assumes "attendance v = attendance w" and "clock v = clock w"
    and "next_outcome (net v) = next_outcome (net w)"
    and "next_outcome (tl (net v)) = next_outcome (tl (net w))"
  shows "attendance (snd (closeAttendance v)) = attendance (snd (closeAttendance w))"
  by (simp only: close_attendance getCurrentDate_def assms)

lemma close_requests:
  assumes "next_outcome (net w) = None" and "attendance w ''current'' \<noteq> None"
  shows "requests (snd (closeAttendance w)) =
           requests w @ [Update ''attendance'' ''current'',
                         Update ''attendance'' (getCurrentDate w)]"
  using assms by (auto simp: closeAttendance_def prim_defs Let_def split: option.split)

lemma reliable_quiet:
  assumes "reliable w"
  shows "next_outcome (net w) = None" "next_outcome (tl (net w)) = None"
    "next_outcome (tl (tl (net w))) = None" "next_outcome (tl (tl (tl (net w)))) = None"
    "next_outcome (tl (tl (tl (tl (net w))))) = None"
  using assms by (simp_all add: reliable_def next_outcome_reliable list_all_tl)

lemma reliable_check_role:
  assumes "reliable w"
  shows "next_outcome (net (snd (check_role uid r w))) = None"
    "next_outcome (tl (net (snd (check_role uid r w)))) = None"
    "next_outcome (tl (tl (net (snd (check_role uid r w))))) = None"
    "next_outcome (tl (tl (tl (net (snd (check_role uid r w)))))) = None"
  using reliable_quiet [OF assms] by simp_all

subsection \<open>The only change of a roster\<close>

text \<open>A call changes a roster in one way only: it appends the name to today's roster.\<close>

lemma try_roster:
  "presentStudents (attendance (snd (markStudentPresent_try t n w)) k) =
     presentStudents (attendance w k) \<or>
   k = t \<and> n \<notin> set (presentStudents (attendance w k)) \<and>
   presentStudents (attendance (snd (markStudentPresent_try t n w)) k) =
     presentStudents (attendance w k) @ [n]"
proof (cases rule: try_cases [of w t n])
  case (marked day)
  have "presentStudents (Some (day\<lparr>students := Some xs\<rparr>)) = xs" for xs
    by (simp add: presentStudents_def)
  with marked show ?thesis
    by (cases "k = t") simp_all
qed (simp_all add: markStudentPresent_catch_def close_roster)

lemma mark_roster:
  "presentStudents (attendance (snd (markStudentPresent n w)) k) =
     presentStudents (attendance w k) \<or>
   k = getCurrentDate w \<and> trim n \<notin> set (presentStudents (attendance w k)) \<and>
   presentStudents (attendance (snd (markStudentPresent n w)) k) =
     presentStudents (attendance w k) @ [trim n]"
proof (cases "currentUser w")
  case None
  then show ?thesis
    by (simp add: markStudentPresent_eq)
next
  case (Some uid)
  show ?thesis
    using Some try_roster [of "getCurrentDate w" "trim n" "snd (check_role uid ''student'' w)" k]
    by (simp add: markStudentPresent_eq)
qed

subsection \<open>One step of a call on the way to success\<close>

lemma mark_step_ok:
  assumes st: "is_student (users w) w" and rel: "reliable w" and nm: "trim n \<noteq> []"
    and ptr: "stored_status (attendance w ''current'') = Some ''open''"
    and fresh: "\<not> past (stored_endTime (attendance w ''current'')) (clock w)"
    and day: "stored_status (attendance w (getCurrentDate w)) = Some ''open''"
    and new: "trim n \<notin> set (presentStudents (attendance w (getCurrentDate w)))"
    and ph: "case p of Begin \<Rightarrow> True | RoleRead uid \<Rightarrow> currentUser w = Some uid \<and> authModule w
               | ReadPointer \<Rightarrow> True | ReadDay \<Rightarrow> True | Append \<Rightarrow> True | _ \<Rightarrow> False"
  shows "currentUser (snd (mark_step n p w)) = currentUser w \<and>
         authModule (snd (mark_step n p w)) = authModule w \<and>
         clock (snd (mark_step n p w)) = clock w \<and>
         reliable (snd (mark_step n p w)) \<and>
         users (snd (mark_step n p w)) = users w \<and>
         rank (fst (mark_step n p w)) < rank p \<and>
         (case fst (mark_step n p w) of
            RoleRead uid \<Rightarrow> currentUser w = Some uid \<and> authModule w
          | ReadPointer \<Rightarrow> True | ReadDay \<Rightarrow> True | Append \<Rightarrow> True
          | Finished b \<Rightarrow> b \<and> p = Append | _ \<Rightarrow> False) \<and>
         (if p = Append then
            \<exists>doc. attendance w (getCurrentDate w) = Some doc \<and>
              attendance (snd (mark_step n p w)) =
                (attendance w)(getCurrentDate w \<mapsto> doc\<lparr>students :=
                   Some (presentStudents (attendance w (getCurrentDate w)) @ [trim n])\<rparr>)
          else attendance (snd (mark_step n p w)) = attendance w)"
proof -
  note q = reliable_quiet [OF rel]
  have rel': "reliable (sent r w)" for r
    using rel by (simp add: reliable_def list_all_tl)
  from st obtain uid where cu: "currentUser w = Some uid"
    by (auto simp: is_student_def split: option.split_asm)
  from ptr obtain cur where cur: "attendance w ''current'' = Some cur" "status cur = Some ''open''"
    by (auto dest: stored_status_SomeD)
  from fresh cur have f: "\<not> past (endTime cur) (clock w)"
    by (simp add: stored_endTime_def)
  from day obtain doc where doc: "attendance w (getCurrentDate w) = Some doc" "status doc = Some ''open''"
    by (auto dest: stored_status_SomeD)
  from new doc have m: "trim n \<notin> set (case students doc of None \<Rightarrow> [] | Some xs \<Rightarrow> xs)"
    by (simp add: presentStudents_def)
  then have au: "arrayUnion (students doc) (trim n) = presentStudents (attendance w (getCurrentDate w)) @ [trim n]"
    using doc by (cases "students doc") (simp_all add: arrayUnion_def presentStudents_def)
  show ?thesis
  proof (cases p)
    case Begin
    then show ?thesis
      using cu nm rel by (simp add: validate_name_def)
  next
    case (RoleRead u)
    with ph have u: "u = uid" "authModule w"
      using cu by simp_all
    from st cu u(2) obtain ud where "users w uid = Some ud" "role ud = Some ''student''"
      by (auto simp: is_student_def split: option.split_asm)
    then show ?thesis
      using RoleRead u cu nm q(1) rel'
      by (simp add: getUserRole_def prim_defs validate_name_def)
  next
    case ReadPointer
    then show ?thesis
      using q(1) cur f rel' by (simp add: prim_defs)
  next
    case ReadDay
    then show ?thesis
      using q(1) doc m rel' by (simp add: prim_defs)
  next
    case Append
    then show ?thesis
      using q(1) doc au rel' by (simp add: prim_defs reliable_def)
  qed (use ph in simp_all)
qed

subsection \<open>One step of the system\<close>

lemma is_student_cong:
  "currentUser v = currentUser w \<Longrightarrow> authModule v = authModule w \<Longrightarrow>
     is_student us v = is_student us w"
  by (simp add: is_student_def split: option.split)

lemma attached [simp]:
  "is_student us (w\<lparr>attendance := a, users := u\<rparr>) = is_student us w"
  "reliable (w\<lparr>attendance := a, users := u\<rparr>) = reliable w"
  by (simp_all add: is_student_def reliable_def split: option.split)

lemma list_all_update: "list_all P xs \<Longrightarrow> P x \<Longrightarrow> list_all P (xs[i := x])"
  by (cases "i < length xs") (auto simp: list_all_length nth_list_update)

lemma client_step_outside: "\<not> i < length (clients s) \<Longrightarrow> client_step i s = s"
  by (simp add: client_step_def)

lemma client_step_returned: "rank (phase (clients s ! i)) = 0 \<Longrightarrow> client_step i s = s"
  by (simp add: client_step_def)

lemma client_step_length [simp]: "length (clients (client_step i s)) = length (clients s)"
  by (simp add: client_step_def Let_def split: prod.split)

lemma client_step_other:
  "j \<noteq> i \<Longrightarrow> clients (client_step i s) ! j = clients s ! j"
  by (simp add: client_step_def Let_def split: prod.split)

lemma rank_0: "rank p = 0 \<longleftrightarrow> (\<exists>b. p = Finished b)"
  by (cases p) simp_all

subsection \<open>The invariant of concurrent calls\<close>

lemma fresh_name:
  assumes ro: "set roster = set R0 \<union>
      {names ! j | j. j < length names \<and> phase (cs ! j) = Finished True}"
    and dn: "distinct names" and dj: "set names \<inter> set R0 = {}"
    and i: "i < length names" and nf: "phase (cs ! i) \<noteq> Finished True"
  shows "names ! i \<notin> set roster"
proof
  assume "names ! i \<in> set roster"
  moreover have "names ! i \<in> set names"
    using i by simp
  then have "names ! i \<notin> set R0"
    using dj by blast
  ultimately have "names ! i \<in>
      {names ! j | j. j < length names \<and> phase (cs ! j) = Finished True}"
    using ro by simp
  then obtain j where j: "j < length names" "phase (cs ! j) = Finished True"
    "names ! i = names ! j"
    by blast
  with dn i have "i = j"
    by (simp add: nth_eq_iff_index_eq)
  with j nf show False
    by simp
qed

lemma client_step_inv:
  assumes inv: "marks_inv D R0 names us ptr s"
    and dn: "distinct names" and dj: "set names \<inter> set R0 = {}"
  shows "marks_inv D R0 names us ptr (client_step i s) \<and>
         (i < length (clients s) \<longrightarrow>
            rank (phase (clients (client_step i s) ! i)) \<le> rank (phase (clients s ! i)) - 1)"
proof (cases "i < length (clients s) \<and> rank (phase (clients s ! i)) \<noteq> 0")
  case False
  then have "client_step i s = s"
    using client_step_outside client_step_returned by blast
  with inv False show ?thesis
    by auto
next
  case True
  then have i: "i < length (clients s)" and r0: "rank (phase (clients s ! i)) \<noteq> 0"
    by simp_all
  from inv have us: "store_users s = us" and pt: "store_attendance s ''current'' = ptr"
    and po: "stored_status ptr = Some ''open''"
    and dy: "stored_status (store_attendance s D) = Some ''open''"
    and nms: "map (\<lambda>c. trim (studentName c)) (clients s) = names"
    and fl: "list_all (in_flight D us ptr) (clients s)"
    and dr: "distinct (presentStudents (store_attendance s D))"
    and ro: "set (presentStudents (store_attendance s D)) =
        set R0 \<union> {names ! j | j. j < length names \<and> phase (clients s ! j) = Finished True}"
    by (simp_all add: marks_inv_def)
  from nms have len: "length names = length (clients s)"
    by auto
  let ?c = "clients s ! i"
  let ?w = "(browser ?c)\<lparr>attendance := store_attendance s, users := store_users s\<rparr>"
  let ?n = "studentName ?c"
  let ?r = "mark_step ?n (phase ?c) ?w"
  let ?c' = "?c\<lparr>phase := fst ?r, browser := snd ?r\<rparr>"
  have step: "client_step i s =
      s\<lparr>store_attendance := attendance (snd ?r), store_users := users (snd ?r),
        clients := (clients s)[i := ?c']\<rparr>"
    using i r0 by (simp add: client_step_def Let_def split: prod.split)
  from fl i have c: "in_flight D us ptr ?c"
    by (simp add: list_all_length)
  then have st: "is_student us (browser ?c)" and rel: "reliable (browser ?c)"
    and ne: "trim ?n \<noteq> []" and td: "getCurrentDate (browser ?c) = D"
    and fr: "\<not> past (stored_endTime ptr) (clock (browser ?c))"
    by (simp_all add: in_flight_def)
  have nmi: "names ! i = trim ?n"
    using nms i by auto
  have tdw: "getCurrentDate ?w = D"
    using td by (simp add: getCurrentDate_def)
  from r0 have nf: "phase ?c \<noteq> Finished True"
    by auto
  have notin: "trim ?n \<notin> set (presentStudents (store_attendance s D))"
    using fresh_name [OF ro dn dj _ nf] i len nmi by simp
  have php: "case phase ?c of Begin \<Rightarrow> True
      | RoleRead uid \<Rightarrow> currentUser ?w = Some uid \<and> authModule ?w
      | ReadPointer \<Rightarrow> True | ReadDay \<Rightarrow> True | Append \<Rightarrow> True | _ \<Rightarrow> False"
    using c r0 by (cases "phase ?c") (simp_all add: in_flight_def)
  have ok: "currentUser (snd ?r) = currentUser ?w \<and>
     authModule (snd ?r) = authModule ?w \<and> clock (snd ?r) = clock ?w \<and>
     reliable (snd ?r) \<and> users (snd ?r) = users ?w \<and>
     rank (fst ?r) < rank (phase ?c) \<and>
     (case fst ?r of
        RoleRead uid \<Rightarrow> currentUser ?w = Some uid \<and> authModule ?w
      | ReadPointer \<Rightarrow> True | ReadDay \<Rightarrow> True | Append \<Rightarrow> True
      | Finished b \<Rightarrow> b \<and> phase ?c = Append | _ \<Rightarrow> False) \<and>
     (if phase ?c = Append then
        \<exists>doc. attendance ?w (getCurrentDate ?w) = Some doc \<and>
          attendance (snd ?r) =
            (attendance ?w)(getCurrentDate ?w \<mapsto> doc\<lparr>students :=
               Some (presentStudents (attendance ?w (getCurrentDate ?w)) @ [trim ?n])\<rparr>)
      else attendance (snd ?r) = attendance ?w)"
  proof (rule mark_step_ok)
    show "is_student (users ?w) ?w"
      using st us by simp
    show "reliable ?w"
      using rel by simp
    show "trim ?n \<noteq> []"
      by (rule ne)
    show "stored_status (attendance ?w ''current'') = Some ''open''"
      using po pt by simp
    show "\<not> past (stored_endTime (attendance ?w ''current'')) (clock ?w)"
      using fr pt by simp
    show "stored_status (attendance ?w (getCurrentDate ?w)) = Some ''open''"
      using dy by (simp add: td)
    show "trim ?n \<notin> set (presentStudents (attendance ?w (getCurrentDate ?w)))"
      using notin by (simp add: td)
    show "case phase ?c of Begin \<Rightarrow> True
      | RoleRead uid \<Rightarrow> currentUser ?w = Some uid \<and> authModule ?w
      | ReadPointer \<Rightarrow> True | ReadDay \<Rightarrow> True | Append \<Rightarrow> True | _ \<Rightarrow> False"
      by (rule php)
  qed
  then have k: "currentUser (snd ?r) = currentUser (browser ?c)"
    "authModule (snd ?r) = authModule (browser ?c)"
    "clock (snd ?r) = clock (browser ?c)" "reliable (snd ?r)" "users (snd ?r) = us"
    and rk: "rank (fst ?r) < rank (phase ?c)"
    using us by simp_all
  from ok have ph': "case fst ?r of
        RoleRead uid \<Rightarrow> currentUser (browser ?c) = Some uid \<and> authModule (browser ?c)
      | ReadPointer \<Rightarrow> True | ReadDay \<Rightarrow> True | Append \<Rightarrow> True
      | Finished b \<Rightarrow> b \<and> phase ?c = Append | _ \<Rightarrow> False"
    by (cases "fst ?r") simp_all
  from ok have at: "if phase ?c = Append then
        \<exists>doc. store_attendance s D = Some doc \<and>
          attendance (snd ?r) =
            (store_attendance s)(D \<mapsto> doc\<lparr>students :=
               Some (presentStudents (store_attendance s D) @ [trim ?n])\<rparr>)
      else attendance (snd ?r) = store_attendance s"
    by (cases "phase ?c = Append") (simp_all add: td)
  have st': "is_student us (snd ?r)"
    using st k(1,2) is_student_cong [of "snd ?r" "browser ?c" us] by simp
  have td': "getCurrentDate (snd ?r) = D"
    using td k(3) by (simp add: getCurrentDate_def)
  have c': "in_flight D us ptr ?c'"
    using st' ne td' fr k ph' by (cases "fst ?r") (simp_all add: in_flight_def)
  have fl': "list_all (in_flight D us ptr) ((clients s)[i := ?c'])"
    using fl c' by (rule list_all_update)
  have nms': "map (\<lambda>c. trim (studentName c)) ((clients s)[i := ?c']) = names"
    using nms i by (auto simp: map_update list_update_same_conv)
  have rank': "rank (phase (clients (client_step i s) ! i)) \<le> rank (phase ?c) - 1"
    using i rk by (simp add: step)
  have other: "phase ((clients s)[i := ?c'] ! j) = phase (clients s ! j)" if "j \<noteq> i" for j
    using that by simp
  have self: "phase ((clients s)[i := ?c'] ! i) = fst ?r"
    using i by simp
  have S: "store_users (client_step i s) = users (snd ?r)"
    "store_attendance (client_step i s) = attendance (snd ?r)"
    "clients (client_step i s) = (clients s)[i := ?c']"
    by (simp_all add: step)
  have cur': "attendance (snd ?r) ''current'' = ptr"
    and dy': "stored_status (attendance (snd ?r) D) = Some ''open''"
    and dr': "distinct (presentStudents (attendance (snd ?r) D))"
    and ro': "set (presentStudents (attendance (snd ?r) D)) =
        set R0 \<union> {names ! j | j. j < length names \<and>
          phase ((clients s)[i := ?c'] ! j) = Finished True}"
  proof -
    have "attendance (snd ?r) ''current'' = ptr \<and>
      stored_status (attendance (snd ?r) D) = Some ''open'' \<and>
      distinct (presentStudents (attendance (snd ?r) D)) \<and>
      set (presentStudents (attendance (snd ?r) D)) =
        set R0 \<union> {names ! j | j. j < length names \<and>
          phase ((clients s)[i := ?c'] ! j) = Finished True}"
    proof (cases "phase ?c = Append")
      case False
      with at have a: "attendance (snd ?r) = store_attendance s"
        by simp
      from ph' False have nd: "fst ?r \<noteq> Finished True"
        by (cases "fst ?r") auto
      have "(j < length names \<and> phase ((clients s)[i := ?c'] ! j) = Finished True) =
          (j < length names \<and> phase (clients s ! j) = Finished True)" for j
        using other [of j] self nd nf by (cases "j = i") simp_all
      then have "{names ! j | j. j < length names \<and>
            phase ((clients s)[i := ?c'] ! j) = Finished True} =
          {names ! j | j. j < length names \<and> phase (clients s ! j) = Finished True}"
        by simp
      with pt dy dr ro show ?thesis
        by (simp only: a)
    next
      case ap: True
      with rk have "rank (fst ?r) = 0"
        by simp
      with ph' have fin: "fst ?r = Finished True"
        by (cases "fst ?r") auto
      from at ap obtain doc where doc: "store_attendance s D = Some doc"
        and a: "attendance (snd ?r) = (store_attendance s)(D \<mapsto> doc\<lparr>students :=
                 Some (presentStudents (store_attendance s D) @ [trim ?n])\<rparr>)"
        by auto
      have "D \<noteq> ''current''"
        using td getCurrentDate_not_current(1) [of "browser ?c"] by simp
      then have 1: "attendance (snd ?r) ''current'' = ptr"
        using pt by (simp add: a)
      have ros': "presentStudents (attendance (snd ?r) D) =
          presentStudents (store_attendance s D) @ [trim ?n]"
        by (simp add: a presentStudents_def)
      have 2: "stored_status (attendance (snd ?r) D) = Some ''open''"
        using dy doc by (simp add: a stored_status_def)
      have "(j < length names \<and> phase ((clients s)[i := ?c'] ! j) = Finished True) =
          (j < length names \<and> phase (clients s ! j) = Finished True \<or> j = i)" for j
        using other [of j] self fin i len by (cases "j = i") simp_all
      then have "{names ! j | j. j < length names \<and>
            phase ((clients s)[i := ?c'] ! j) = Finished True} =
          {names ! j | j. j < length names \<and> phase (clients s ! j) = Finished True \<or> j = i}"
        by simp
      also have "\<dots> = insert (names ! i)
          {names ! j | j. j < length names \<and> phase (clients s ! j) = Finished True}"
        by blast
      finally have fs: "{names ! j | j. j < length names \<and>
            phase ((clients s)[i := ?c'] ! j) = Finished True} =
          insert (trim ?n)
            {names ! j | j. j < length names \<and> phase (clients s ! j) = Finished True}"
        by (simp add: nmi)
      have 3: "distinct (presentStudents (attendance (snd ?r) D))"
        using dr notin by (simp add: ros')
      have 4: "set (presentStudents (attendance (snd ?r) D)) =
          set R0 \<union> {names ! j | j. j < length names \<and>
            phase ((clients s)[i := ?c'] ! j) = Finished True}"
        using ro by (simp only: ros' fs) auto
      from 1 2 3 4 show ?thesis
        by (intro conjI)
    qed
    then show "attendance (snd ?r) ''current'' = ptr"
      and "stored_status (attendance (snd ?r) D) = Some ''open''"
      and "distinct (presentStudents (attendance (snd ?r) D))"
      and "set (presentStudents (attendance (snd ?r) D)) =
        set R0 \<union> {names ! j | j. j < length names \<and>
          phase ((clients s)[i := ?c'] ! j) = Finished True}"
      by simp_all
  qed
  have "marks_inv D R0 names us ptr (client_step i s)"
    unfolding marks_inv_def S
    using k(5) cur' po dy' nms' fl' dr' ro' by (intro conjI)
  with rank' show ?thesis
    by simp
qed

subsection \<open>A whole schedule\<close>

lemma run_schedule_length [simp]:
  "length (clients (run_schedule sched s)) = length (clients s)"
  by (induction sched arbitrary: s) simp_all

lemma run_schedule_inv:
  assumes "marks_inv D R0 names us ptr s"
    and "distinct names" and "set names \<inter> set R0 = {}"
  shows "marks_inv D R0 names us ptr (run_schedule sched s) \<and>
         (\<forall>i < length (clients s).
            rank (phase (clients (run_schedule sched s) ! i)) \<le>
              rank (phase (clients s ! i)) - count_list sched i)"
  using assms(1)
proof (induction sched arbitrary: s)
  case Nil
  then show ?case
    by simp
next
  case (Cons j sched)
  let ?s1 = "client_step j s"
  from client_step_inv [OF Cons.prems assms(2,3), of j]
  have inv1: "marks_inv D R0 names us ptr ?s1"
    and rk: "j < length (clients s) \<Longrightarrow>
        rank (phase (clients ?s1 ! j)) \<le> rank (phase (clients s ! j)) - 1"
    by simp_all
  from Cons.IH [OF inv1]
  have inv: "marks_inv D R0 names us ptr (run_schedule sched ?s1)"
    and ih: "\<And>i. i < length (clients s) \<Longrightarrow>
        rank (phase (clients (run_schedule sched ?s1) ! i)) \<le>
          rank (phase (clients ?s1 ! i)) - count_list sched i"
    by simp_all
  have "rank (phase (clients (run_schedule sched ?s1) ! i)) \<le>
      rank (phase (clients s ! i)) - count_list (j # sched) i"
    if i: "i < length (clients s)" for i
  proof (cases "i = j")
    case True
    with ih [OF i] rk i show ?thesis
      by simp
  next
    case False
    with ih [OF i] client_step_other [of i j s] show ?thesis
      by simp
  qed
  with inv show ?case
    by simp
qed

lemma ready_in_flight:
  "ready s D c \<Longrightarrow> in_flight D (store_users s) (store_attendance s ''current'') c"
  by (simp add: ready_def in_flight_def)

lemma marks_inv_start:
  assumes "open_session s D" and "list_all (ready s D) (clients s)"
    and "distinct (presentStudents (store_attendance s D))"
  shows "marks_inv D (presentStudents (store_attendance s D))
           (map (\<lambda>c. trim (studentName c)) (clients s)) (store_users s)
           (store_attendance s ''current'') s"
proof -
  have "list_all (in_flight D (store_users s) (store_attendance s ''current'')) (clients s)"
    using assms(2) by (simp add: list_all_iff ready_in_flight)
  moreover have "phase (clients s ! j) \<noteq> Finished True" if "j < length (clients s)" for j
    using assms(2) that by (simp add: list_all_length ready_def)
  then have "{map (\<lambda>c. trim (studentName c)) (clients s) ! j | j.
      j < length (map (\<lambda>c. trim (studentName c)) (clients s)) \<and>
      phase (clients s ! j) = Finished True} = {}"
    by auto
  ultimately show ?thesis
    using assms(1,3) by (auto simp: marks_inv_def open_session_def)
qed

lemma names_fresh:
  assumes "list_all (ready s D) (clients s)"
  shows "set (map (\<lambda>c. trim (studentName c)) (clients s)) \<inter>
           set (presentStudents (store_attendance s D)) = {}"
  using assms by (auto simp: list_all_iff ready_def)

subsection \<open>The steps of one call\<close>

text \<open>
  The steps of one call, run in a row with nothing in between, are the call: the phases
  cut \<^verbatim>\<open>markStudentPresent\<close> at its requests and change nothing else.
\<close>

lemma mark_run_Finished [simp]: "mark_run k n (Finished b, w) = (Finished b, w)"
  by (induction k) simp_all

lemma run_from_ReadPointer:
  "mark_run 4 n (ReadPointer, w) =
     (Finished (fst (markStudentPresent_try (getCurrentDate w) (trim n) w)),
      snd (markStudentPresent_try (getCurrentDate w) (trim n) w))"
proof -
  have 4: "mark_run 4 n c = mark_run 3 n (mark_step n (fst c) (snd c))" for c
    by (simp add: numeral_eq_Suc)
  have 3: "mark_run 3 n c = mark_run 2 n (mark_step n (fst c) (snd c))" for c
    by (simp add: numeral_eq_Suc)
  have 2: "mark_run 2 n c = mark_run 1 n (mark_step n (fst c) (snd c))" for c
    by (simp add: numeral_eq_Suc)
  have 1: "mark_run 1 n c = mark_step n (fst c) (snd c)" for c
    by simp
  show ?thesis
    by (cases rule: try_cases [of w "getCurrentDate w" "trim n"])
      (auto simp: 4 3 2 1 prim_defs mark_caught_def markStudentPresent_catch_def
        closeAttendance_def Let_def stored_status_def stored_endTime_def
        presentStudents_def arrayUnion_def
        split: option.split_asm option.split)
qed

lemma mark_run_refines:
  "mark_run 6 n (Begin, w) =
     (Finished (fst (markStudentPresent n w)), snd (markStudentPresent n w))"
proof -
  have 6: "mark_run 6 n c = mark_run 5 n (mark_step n (fst c) (snd c))" for c
    by (simp add: numeral_eq_Suc)
  have 5: "mark_run 5 n c = mark_run 4 n (mark_step n (fst c) (snd c))" for c
    by (simp add: numeral_eq_Suc)
  have 54: "mark_run 5 n (ReadPointer, v) = mark_run 4 n (ReadPointer, v)" for v
  proof -
    have "mark_run 5 n (ReadPointer, v) = mark_run 1 n (mark_run 4 n (ReadPointer, v))"
      by (simp add: numeral_eq_Suc)
    then show ?thesis
      by (simp add: run_from_ReadPointer)
  qed
  show ?thesis
  proof (cases "currentUser w")
    case None
    then show ?thesis
      by (simp add: 6 markStudentPresent_eq)
  next
    case (Some uid)
    show ?thesis
    proof (cases "authModule w")
      case False
      then show ?thesis
        using Some
        by (simp add: 6 54 run_from_ReadPointer markStudentPresent_eq check_role_def
            validate_name_def)
    next
      case True
      obtain r w1 where g: "getUserRole uid w = (r, w1)"
        by (cases "getUserRole uid w")
      then have c: "check_role uid ''student'' w = (r = Some ''student'', w1)"
        using True by (simp add: check_role_def)
      have d: "getCurrentDate w1 = getCurrentDate w"
        using check_role_proj(8) [of uid "''student''" w] c by simp
      show ?thesis
        using Some True g d
        by (simp add: 6 5 run_from_ReadPointer markStudentPresent_eq c validate_name_def)
    qed
  qed
qed

subsection \<open>A call while time passes\<close>

lemma clock_upd_proj [simp]:
  "getCurrentDate (w\<lparr>clock := t\<rparr>) = iso_date t"
  by (simp add: getCurrentDate_def)

lemma merge_fields_endTime [simp]:
  "endTime (merge_fields (no_fields\<lparr>status := s, timestamp := t\<rparr>) old) = endTime old"
  by (simp add: merge_fields_def no_fields_def)

lemma name_checked_proj [simp]:
  "attendance (snd (name_checked n w)) = attendance w"
  "before_roster (fst (name_checked n w))"
  by (simp_all add: name_checked_def)

text \<open>
  While every reading of the clock is past the stored end time, a call stays before the
  roster: it never reads it and never writes it.
\<close>

lemma resume_before:
  assumes "before_roster s" and "stored_endTime (attendance w ''current'') = Some e"
    and "e < clock w"
  shows "before_roster (fst (resume n s w))"
    and "stored_endTime (attendance (snd (resume n s w)) ''current'') = Some e"
    and "presentStudents (attendance (snd (resume n s w)) k) = presentStudents (attendance w k)"
proof -
  from assms(2) obtain cur where cur: "attendance w ''current'' = Some cur"
    and e: "endTime cur = Some e"
    by (auto simp: stored_endTime_def split: option.split_asm)
  have "before_roster (fst (resume n s w)) \<and>
      stored_endTime (attendance (snd (resume n s w)) ''current'') = Some e \<and>
      presentStudents (attendance (snd (resume n s w)) k) = presentStudents (attendance w k)"
  proof (cases s)
    case Start
    then show ?thesis
      using assms(2) by (simp split: option.split)
  next
    case (AwaitRole uid)
    obtain r w1 where g: "getUserRole uid w = (r, w1)"
      by (cases "getUserRole uid w")
    have "attendance w1 = attendance w"
      using g by (auto simp: getUserRole_def prim_defs split: option.split_asm if_split_asm)
    then show ?thesis
      using AwaitRole g assms(2) by simp
  next
    case (AwaitPointer today)
    then show ?thesis
      using assms(3) cur e
      by (simp add: prim_defs markStudentPresent_catch_def stored_endTime_def past_def
          split: option.split)
  next
    case (AwaitClosePointer closing)
    then show ?thesis
      using cur e
      by (auto simp: prim_defs stored_endTime_def presentStudents_def split: option.split)
  next
    case (AwaitCloseDay closing)
    then show ?thesis
      using cur e
      by (auto simp: prim_defs stored_endTime_def presentStudents_def split: option.split)
  next
    case (AwaitDay today)
    then show ?thesis
      using assms(1) by simp
  next
    case (AwaitAppend today)
    then show ?thesis
      using assms(1) by simp
  next
    case (Returned b)
    then show ?thesis
      using assms(1,2) by simp
  qed
  then show "before_roster (fst (resume n s w))"
    and "stored_endTime (attendance (snd (resume n s w)) ''current'') = Some e"
    and "presentStudents (attendance (snd (resume n s w)) k) = presentStudents (attendance w k)"
    by simp_all
qed

lemma timed_run_before:
  assumes "before_roster (fst c)" and "stored_endTime (attendance (snd c) ''current'') = Some e"
    and "list_all (\<lambda>t. e < t) ts"
  shows "before_roster (fst (timed_run ts n c)) \<and>
         stored_endTime (attendance (snd (timed_run ts n c)) ''current'') = Some e \<and>
         presentStudents (attendance (snd (timed_run ts n c)) k) =
           presentStudents (attendance (snd c) k)"
  using assms
proof (induction ts arbitrary: c)
  case Nil
  then show ?case
    by simp
next
  case (Cons t ts)
  let ?v = "(snd c)\<lparr>clock := t\<rparr>"
  have a: "stored_endTime (attendance ?v ''current'') = Some e" "e < clock ?v"
    using Cons.prems by simp_all
  note r = resume_before [OF Cons.prems(1) a, of n]
  have "list_all (\<lambda>t. e < t) ts"
    using Cons.prems(3) by simp
  from Cons.IH [OF r(1) r(2) this] r(3) [of k] show ?case
    by simp
qed

lemma timed_run_Returned:
  "fst (timed_run ts n (Returned b, w)) = Returned b"
  "attendance (snd (timed_run ts n (Returned b, w))) = attendance w"
  "alerts (snd (timed_run ts n (Returned b, w))) = alerts w"
  by (induction ts arbitrary: w) simp_all


text \<open>
  A call that waits for the pointer record of an open session, when the reading of the
  clock at the expiry test is past the end time and the next three requests go through:
  it closes the pointer record, and the per-date record of the day of that reading if
  there is one, and returns \<^verbatim>\<open>false\<close> after the alert.
\<close>

lemma expired_from_pointer:
  assumes cur: "attendance w ''current'' = Some cur" "status cur = Some ''open''"
      "endTime cur = Some e"
    and q: "next_outcome (net w) = None" "next_outcome (tl (net w)) = None"
      "next_outcome (tl (tl (net w))) = None"
    and t: "e < t1"
  shows "fst (timed_run (t1 # t2 # t3 # ts) n (AwaitPointer d, w)) = Returned False"
    and "alerts (snd (timed_run (t1 # t2 # t3 # ts) n (AwaitPointer d, w))) =
           alerts w @ [''Attendance time has expired!'']"
    and "stored_status (attendance (snd (timed_run (t1 # t2 # t3 # ts) n (AwaitPointer d, w)))
           ''current'') = Some ''closed''"
    and "attendance w (iso_date t1) \<noteq> None \<Longrightarrow>
         stored_status (attendance (snd (timed_run (t1 # t2 # t3 # ts) n (AwaitPointer d, w)))
           (iso_date t1)) = Some ''closed''"
proof -
  let ?w1 = "sent (Get ''attendance'' ''current'') (w\<lparr>clock := t1\<rparr>)"
  have 1: "resume n (AwaitPointer d) (w\<lparr>clock := t1\<rparr>) = (AwaitClosePointer (iso_date t1), ?w1)"
    using cur q(1) t by (simp add: prim_defs past_def)
  let ?close = "\<lambda>t. merge_fields (no_fields\<lparr>status := Some ''closed'', timestamp := Some t\<rparr>)"
  let ?w2 = "(sent (Update ''attendance'' ''current'') (?w1\<lparr>clock := t2\<rparr>))
      \<lparr>attendance := (attendance w)(''current'' \<mapsto> ?close t2 cur)\<rparr>"
  have 2: "resume n (AwaitClosePointer (iso_date t1)) (?w1\<lparr>clock := t2\<rparr>) =
      (AwaitCloseDay (iso_date t1), ?w2)"
    using cur q(2) by (simp add: prim_defs)
  obtain s3 w3 where 3: "resume n (AwaitCloseDay (iso_date t1)) (?w2\<lparr>clock := t3\<rparr>) = (s3, w3)"
    by (cases "resume n (AwaitCloseDay (iso_date t1)) (?w2\<lparr>clock := t3\<rparr>)")
  have d: "iso_date t1 \<noteq> ''current''"
    by (rule iso_date_not_current)
  from 3 q(3) d have r: "s3 = Returned False"
    "alerts w3 = alerts w @ [''Attendance time has expired!'']"
    "stored_status (attendance w3 ''current'') = Some ''closed''"
    "attendance w (iso_date t1) \<noteq> None \<Longrightarrow>
       stored_status (attendance w3 (iso_date t1)) = Some ''closed''"
    by (auto simp: prim_defs stored_status_def split: option.split_asm)
  have run: "timed_run (t1 # t2 # t3 # ts) n (AwaitPointer d, w) =
      timed_run ts n (Returned False, w3)"
    by (simp only: timed_run.simps fst_conv snd_conv 1 2 3 r(1))
  show "fst (timed_run (t1 # t2 # t3 # ts) n (AwaitPointer d, w)) = Returned False"
    and "alerts (snd (timed_run (t1 # t2 # t3 # ts) n (AwaitPointer d, w))) =
           alerts w @ [''Attendance time has expired!'']"
    and "stored_status (attendance (snd (timed_run (t1 # t2 # t3 # ts) n (AwaitPointer d, w)))
           ''current'') = Some ''closed''"
    and "attendance w (iso_date t1) \<noteq> None \<Longrightarrow>
         stored_status (attendance (snd (timed_run (t1 # t2 # t3 # ts) n (AwaitPointer d, w)))
           (iso_date t1)) = Some ''closed''"
    unfolding run using r by (simp_all add: timed_run_Returned)
qed


lemma expired_from_start:
  assumes st: "is_student (users w) w" and nm: "trim n \<noteq> []"
    and op: "stored_status (attendance w ''current'') = Some ''open''"
    and en: "stored_endTime (attendance w ''current'') = Some e"
    and rel: "reliable w" and late: "list_all (\<lambda>t. e < t) ts" and len: "5 \<le> length ts"
  shows "fst (timed_run ts n (Start, w)) = Returned False \<and>
         alerts (snd (timed_run ts n (Start, w))) =
           alerts w @ [''Attendance time has expired!''] \<and>
         stored_status (attendance (snd (timed_run ts n (Start, w))) ''current'') =
           Some ''closed'' \<and>
         (list_all (\<lambda>t. iso_date t = D) ts \<and> attendance w D \<noteq> None \<longrightarrow>
            stored_status (attendance (snd (timed_run ts n (Start, w))) D) = Some ''closed'')"
proof -
  from len obtain t1 t2 t3 t4 t5 rest where ts: "ts = t1 # t2 # t3 # t4 # t5 # rest"
    by (cases ts; simp; rename_tac a as; case_tac as; simp; rename_tac b bs; case_tac bs; simp;
        rename_tac c cs; case_tac cs; simp; rename_tac d ds; case_tac ds; simp)
  from op en obtain cur where cur: "attendance w ''current'' = Some cur"
    "status cur = Some ''open''" "endTime cur = Some e"
    by (auto simp: stored_status_def stored_endTime_def split: option.split_asm)
  from st obtain uid where uid: "currentUser w = Some uid"
    by (auto simp: is_student_def split: option.split_asm)
  note q = reliable_quiet [OF rel]
  show ?thesis
  proof (cases "authModule w")
    case False
    let ?w1 = "w\<lparr>clock := t1\<rparr>"
    have 1: "resume n Start ?w1 = (AwaitPointer (iso_date t1), ?w1)"
      using uid False nm by (simp add: name_checked_def)
    have run: "timed_run ts n (Start, w) =
        timed_run (t2 # t3 # t4 # t5 # rest) n (AwaitPointer (iso_date t1), ?w1)"
      unfolding ts by (simp only: timed_run.simps fst_conv snd_conv 1)
    have a: "attendance ?w1 ''current'' = Some cur" "next_outcome (net ?w1) = None"
      "next_outcome (tl (net ?w1)) = None" "next_outcome (tl (tl (net ?w1))) = None"
      "e < t2"
      using cur q late by (simp_all add: ts)
    define R where "R = timed_run (t2 # t3 # t4 # t5 # rest) n (AwaitPointer (iso_date t1), ?w1)"
    note r = expired_from_pointer [OF a(1) cur(2,3) a(2,3,4,5), of t3 t4 "t5 # rest" n
        "iso_date t1", folded R_def]
    show ?thesis
      unfolding run R_def [symmetric] using r by (auto simp: ts)
  next
    case True
    let ?w1 = "w\<lparr>clock := t1\<rparr>"
    let ?w2 = "sent (Get ''users'' uid) (?w1\<lparr>clock := t2\<rparr>)"
    from st uid True obtain u where u: "users w uid = Some u" "role u = Some ''student''"
      by (auto simp: is_student_def split: option.split_asm)
    have 1: "resume n Start ?w1 = (AwaitRole uid, ?w1)"
      using uid True by simp
    have 2: "resume n (AwaitRole uid) (?w1\<lparr>clock := t2\<rparr>) = (AwaitPointer (iso_date t2), ?w2)"
      using u q(1) nm by (simp add: getUserRole_def prim_defs name_checked_def)
    have run: "timed_run ts n (Start, w) =
        timed_run (t3 # t4 # t5 # rest) n (AwaitPointer (iso_date t2), ?w2)"
      unfolding ts by (simp only: timed_run.simps fst_conv snd_conv 1 2)
    have a: "attendance ?w2 ''current'' = Some cur" "next_outcome (net ?w2) = None"
      "next_outcome (tl (net ?w2)) = None" "next_outcome (tl (tl (net ?w2))) = None"
      "e < t3"
      using cur q late by (simp_all add: ts)
    define R where "R = timed_run (t3 # t4 # t5 # rest) n (AwaitPointer (iso_date t2), ?w2)"
    note r = expired_from_pointer [OF a(1) cur(2,3) a(2,3,4,5), of t4 t5 rest n "iso_date t2",
        folded R_def]
    show ?thesis
      unfolding run R_def [symmetric] using r by (auto simp: ts)
  qed
qed


subsection \<open>When the clock stands still\<close>

text \<open>
  With a clock that stands still the stages are the phases: a stage that holds the date
  of the clock takes the step of its phase.
\<close>

lemma getUserRole_clock [simp]: "clock (snd (getUserRole uid w)) = clock w"
  by (simp add: getUserRole_def prim_defs split: option.split)

lemma resume_mark_step:
  assumes "held_date s = None \<or> held_date s = Some (getCurrentDate w)"
  shows "mark_step n (phase_of s) w = (phase_of (fst (resume n s w)), snd (resume n s w)) \<and>
         clock (snd (resume n s w)) = clock w \<and>
         (held_date (fst (resume n s w)) = None \<or>
          held_date (fst (resume n s w)) = Some (getCurrentDate w))"
proof (cases s)
  case Start
  then show ?thesis
    by (simp add: name_checked_def validate_name_def split: option.split)
next
  case (AwaitRole uid)
  then show ?thesis
    by (simp add: name_checked_def validate_name_def getUserRole_def prim_defs
        split: option.split)
next
  case (AwaitPointer today)
  then show ?thesis
    using assms
    by (simp add: prim_defs mark_caught_def markStudentPresent_catch_def split: option.split)
next
  case (AwaitClosePointer closing)
  then show ?thesis
    using assms by (simp add: prim_defs split: option.split)
next
  case (AwaitCloseDay closing)
  then show ?thesis
    using assms by (simp add: prim_defs split: option.split)
next
  case (AwaitDay today)
  then show ?thesis
    using assms
    by (auto simp: prim_defs mark_caught_def markStudentPresent_catch_def split: option.split)
next
  case (AwaitAppend today)
  then show ?thesis
    using assms
    by (simp add: prim_defs mark_caught_def markStudentPresent_catch_def split: option.split)
next
  case (Returned b)
  then show ?thesis
    by simp
qed

lemma timed_run_frozen:
  assumes "held_date s = None \<or> held_date s = Some (getCurrentDate w)"
  shows "mark_run k n (phase_of s, w) =
           (phase_of (fst (timed_run (replicate k (clock w)) n (s, w))),
            snd (timed_run (replicate k (clock w)) n (s, w)))"
  using assms
proof (induction k arbitrary: s w)
  case 0
  then show ?case
    by simp
next
  case (Suc k)
  let ?s1 = "fst (resume n s w)" and ?w1 = "snd (resume n s w)"
  from resume_mark_step [OF Suc.prems, of n]
  have st: "mark_step n (phase_of s) w = (phase_of ?s1, ?w1)"
    and ck: "clock ?w1 = clock w"
    and hd: "held_date ?s1 = None \<or> held_date ?s1 = Some (getCurrentDate ?w1)"
    by (simp_all add: getCurrentDate_def)
  have "timed_run (replicate (Suc k) (clock w)) n (s, w) =
      timed_run (replicate k (clock ?w1)) n (?s1, ?w1)"
    by (simp add: ck)
  with Suc.IH [OF hd] st show ?case
    by simp
qed

text \<open>
  So a call that reads the same time at every stretch is the call of
  \<^verbatim>\<open>markStudentPresent\<close> at that time.
\<close>

lemma timed_run_refines:
  "timed_run (replicate 6 (clock w)) n (Start, w) =
     (Returned (fst (markStudentPresent n w)), snd (markStudentPresent n w))"
proof -
  let ?R = "timed_run (replicate 6 (clock w)) n (Start, w)"
  from timed_run_frozen [of Start w 6 n] mark_run_refines [of n w]
  have "phase_of (fst ?R) = Finished (fst (markStudentPresent n w))"
    and w: "snd ?R = snd (markStudentPresent n w)"
    by simp_all
  then have "fst ?R = Returned (fst (markStudentPresent n w))"
    by (cases "fst ?R") simp_all
  with w show ?thesis
    by (simp add: prod_eq_iff)
qed

section \<open>Opening a session\<close>

text \<open>
  C5. Every call of \<^verbatim>\<open>openAttendance\<close> that returns normally, whatever the store held
  before (so also a re-open while a session is open), has written the pointer record
  \<^verbatim>\<open>current\<close> with today's date, status \<^verbatim>\<open>open\<close> and the end time
  \<open>now + durationSeconds\<close> (in milliseconds: \<open>clock + durationSeconds * 1000\<close>), and has
  left the per-date record of today with status \<^verbatim>\<open>open\<close>, the same end time and an empty
  list of students, so that earlier marks of the day are gone. The roster lives in the
  per-date record; the pointer record is written without a \<^verbatim>\<open>students\<close> field, which
  every reader takes for the empty list. No other record changes.
\<close>

theorem openAttendance_success:
  assumes "openAttendance d w = (Inr u, w')"
  shows "attendance w' ''current'' =
           Some \<lparr>date = Some (getCurrentDate w), status = Some ''open'',
                 endTime = Some (clock w + d * 1000), students = None,
                 timestamp = Some (clock w)\<rparr> \<and>
         (\<exists>doc. attendance w' (getCurrentDate w) = Some doc \<and>
            status doc = Some ''open'' \<and> endTime doc = Some (clock w + d * 1000) \<and>
            students doc = Some []) \<and>
         presentStudents (attendance w' ''current'') = [] \<and>
         presentStudents (attendance w' (getCurrentDate w)) = [] \<and>
         (\<forall>k. k \<noteq> ''current'' \<and> k \<noteq> getCurrentDate w \<longrightarrow>
            attendance w' k = attendance w k)"
proof -
  from assms obtain uid where u: "currentUser w = Some uid"
    by (cases "currentUser w") (simp_all add: openAttendance_eq)
  let ?w1 = "snd (check_role uid ''teacher'' w)"
  from assms u have ok: "fst (check_role uid ''teacher'' w)"
    and run: "openAttendance_try (getCurrentDate w) (clock w + d * 1000) d ?w1 = (Inr u, w')"
    by (simp_all add: openAttendance_eq split: if_split_asm)
  from run show ?thesis
    by (auto simp: openAttendance_try_def openAttendance_catch_def prim_defs merge_fields_def
        Let_def presentStudents_def split: option.split_asm)
qed

theorem openAttendance_success_witness:
  "openAttendance 120 classroom = (Inr (), snd (openAttendance 120 classroom)) \<and>
   attendance (snd (openAttendance 120 classroom)) ''current'' =
     Some \<lparr>date = Some ''2026-11-03'', status = Some ''open'',
           endTime = Some 1793664120000, students = None,
           timestamp = Some 1793664000000\<rparr>"
proof -
  have run: "openAttendance 120 classroom = (Inr (), snd (openAttendance 120 classroom))"
    using open_classroom by (simp add: prod_eq_iff)
  have "clock classroom = 1793664000000"
    by (simp add: classroom_def)
  with openAttendance_success [OF run] run today_classroom show ?thesis
    by simp
qed

text \<open>
  When \<^verbatim>\<open>window.authModule\<close> is defined, a logged-in caller whose role lookup does not
  return \<^verbatim>\<open>teacher\<close> is turned away: \<^verbatim>\<open>openAttendance\<close> throws the error
  \<^verbatim>\<open>Unauthorized: Teacher role required\<close> after the alert
  \<^verbatim>\<open>Only teachers can open attendance.\<close>, and the only request sent is the read of the
  role, so neither the pointer record nor the per-date record is written.
\<close>

lemma open_unauthorized:
  assumes "currentUser w = Some uid" and "authModule w"
    and "fst (getUserRole uid w) \<noteq> Some ''teacher''"
  shows "fst (openAttendance d w) = Inl (Error ''Unauthorized: Teacher role required'') \<and>
         attendance (snd (openAttendance d w)) = attendance w \<and>
         users (snd (openAttendance d w)) = users w \<and>
         requests (snd (openAttendance d w)) = requests w @ [Get ''users'' uid] \<and>
         alerts (snd (openAttendance d w)) =
           alerts w @ [''Only teachers can open attendance.'']"
  using assms by (simp add: openAttendance_eq check_role_getUserRole)

text \<open>
  C7. A call of \<^verbatim>\<open>openAttendance\<close> by a logged-in identity whose role lookup does not
  return \<^verbatim>\<open>teacher\<close> should throw the Unauthorized error and write nothing; the comment
  of the function says \<^verbatim>\<open>Requires teacher role\<close>. The code makes the lookup only
  \<^verbatim>\<open>if (window.authModule)\<close>. On a page where \<^verbatim>\<open>auth.js\<close> has not defined that
  object, nobody is asked: the student \<^verbatim>\<open>s1\<close>, whose role document says
  \<^verbatim>\<open>student\<close> and for whom \<^verbatim>\<open>getUserRole\<close> would answer \<^verbatim>\<open>student\<close>, calls
  \<^verbatim>\<open>openAttendance(120)\<close> in the class where no session was open. The call returns
  normally, without an alert and without a read of the role, and has written the pointer
  record and the per-date record with status \<^verbatim>\<open>open\<close>: the store is that of a session
  opened by the teacher.
\<close>

theorem openAttendance_unchecked:
  "currentUser (classroom\<lparr>currentUser := Some ''s1'', authModule := False\<rparr>) = Some ''s1'' \<and>
   users (classroom\<lparr>currentUser := Some ''s1'', authModule := False\<rparr>) ''s1'' =
     Some \<lparr>role = Some ''student''\<rparr> \<and>
   fst (getUserRole ''s1'' (classroom\<lparr>currentUser := Some ''s1'', authModule := False\<rparr>)) =
     Some ''student'' \<and>
   attendance (classroom\<lparr>currentUser := Some ''s1'', authModule := False\<rparr>) = Map.empty \<and>
   fst (openAttendance 120 (classroom\<lparr>currentUser := Some ''s1'', authModule := False\<rparr>)) =
     Inr () \<and>
   stored_status (attendance (snd (openAttendance 120
       (classroom\<lparr>currentUser := Some ''s1'', authModule := False\<rparr>))) ''current'') =
     Some ''open'' \<and>
   stored_status (attendance (snd (openAttendance 120
       (classroom\<lparr>currentUser := Some ''s1'', authModule := False\<rparr>))) ''2026-11-03'') =
     Some ''open'' \<and>
   attendance (snd (openAttendance 120
       (classroom\<lparr>currentUser := Some ''s1'', authModule := False\<rparr>))) =
     attendance (snd (openAttendance 120 classroom)) \<and>
   requests (snd (openAttendance 120
       (classroom\<lparr>currentUser := Some ''s1'', authModule := False\<rparr>))) =
     [Set ''attendance'' ''current'', SetMerge ''attendance'' ''2026-11-03''] \<and>
   alerts (snd (openAttendance 120
       (classroom\<lparr>currentUser := Some ''s1'', authModule := False\<rparr>))) = []"
  by (simp add: run_defs stored_status_def)

section \<open>A role lookup that fails\<close>

text \<open>
  C10. When the read of the user's role is rejected by the store, \<^verbatim>\<open>getUserRole\<close>
  answers \<^verbatim>\<open>null\<close>, so \<^verbatim>\<open>openAttendance\<close> throws the Unauthorized error and
  \<^verbatim>\<open>markStudentPresent\<close> returns \<^verbatim>\<open>false\<close> after the alert of the role check. The
  result, the alerts and the store are those of the same call in a world where the user
  has no document at all and the read goes through: the caller cannot tell a failed
  lookup from a missing role.
\<close>

theorem role_lookup_failure:
  assumes "currentUser w = Some uid" and "authModule w"
    and "next_outcome (net w) = Some msg"
  shows "fst (getUserRole uid w) = None \<and>
         fst (openAttendance d w) = Inl (Error ''Unauthorized: Teacher role required'') \<and>
         alerts (snd (openAttendance d w)) =
           alerts w @ [''Only teachers can open attendance.''] \<and>
         fst (markStudentPresent n w) = False \<and>
         alerts (snd (markStudentPresent n w)) =
           alerts w @ [''Only students can mark attendance.''] \<and>
         attendance (snd (openAttendance d w)) = attendance w \<and>
         attendance (snd (markStudentPresent n w)) = attendance w \<and>
         (let w0 = w\<lparr>users := (users w)(uid := None), net := None # tl (net w)\<rparr>
          in fst (openAttendance d w0) = fst (openAttendance d w) \<and>
             alerts (snd (openAttendance d w0)) = alerts (snd (openAttendance d w)) \<and>
             attendance (snd (openAttendance d w0)) =
               attendance (snd (openAttendance d w)) \<and>
             fst (markStudentPresent n w0) = fst (markStudentPresent n w) \<and>
             alerts (snd (markStudentPresent n w0)) =
               alerts (snd (markStudentPresent n w)) \<and>
             attendance (snd (markStudentPresent n w0)) =
               attendance (snd (markStudentPresent n w)))"
  using assms
  by (simp add: openAttendance_eq markStudentPresent_eq check_role_fst getUserRole_def
      prim_defs next_outcome_def Let_def)

theorem role_lookup_failure_witness:
  "currentUser (classroom\<lparr>net := [Some ''unavailable'']\<rparr>) = Some ''t1'' \<and>
   authModule (classroom\<lparr>net := [Some ''unavailable'']\<rparr>) \<and>
   next_outcome (net (classroom\<lparr>net := [Some ''unavailable'']\<rparr>)) = Some ''unavailable'' \<and>
   fst (openAttendance 120 (classroom\<lparr>net := [Some ''unavailable'']\<rparr>)) =
     Inl (Error ''Unauthorized: Teacher role required'') \<and>
   fst (markStudentPresent ''Alice'' (classroom\<lparr>net := [Some ''unavailable'']\<rparr>)) = False"
proof -
  let ?w = "classroom\<lparr>net := [Some ''unavailable'']\<rparr>"
  have a: "currentUser ?w = Some ''t1''" "authModule ?w"
    "next_outcome (net ?w) = Some ''unavailable''"
    by (simp_all add: classroom_def next_outcome_def)
  show ?thesis
    using role_lookup_failure [OF a, of 120 "''Alice''"] a by simp
qed

section \<open>Closing a session\<close>

text \<open>
  A first call that goes through, and a second call at any time \<open>t\<close> over any network
  \<open>ns\<close>.
\<close>

lemma close_again:
  assumes "attendance w ''current'' \<noteq> None" and "attendance w (getCurrentDate w) \<noteq> None"
    and "reliable w"
  shows "stored_status (attendance (snd (closeAttendance w)) ''current'') = Some ''closed'' \<and>
     stored_status (attendance (snd (closeAttendance w)) (getCurrentDate w)) = Some ''closed'' \<and>
     stored_status (attendance (snd (closeAttendance
        ((snd (closeAttendance w))\<lparr>clock := t, net := ns\<rparr>))) ''current'') = Some ''closed'' \<and>
     stored_status (attendance (snd (closeAttendance
        ((snd (closeAttendance w))\<lparr>clock := t, net := ns\<rparr>))) (getCurrentDate w)) =
        Some ''closed'' \<and>
     other_fields (attendance (snd (closeAttendance
        ((snd (closeAttendance w))\<lparr>clock := t, net := ns\<rparr>))) ''current'') =
       other_fields (attendance (snd (closeAttendance w)) ''current'') \<and>
     other_fields (attendance (snd (closeAttendance
        ((snd (closeAttendance w))\<lparr>clock := t, net := ns\<rparr>))) (getCurrentDate w)) =
       other_fields (attendance (snd (closeAttendance w)) (getCurrentDate w)) \<and>
     (\<forall>k. k \<noteq> ''current'' \<and> k \<noteq> iso_date t \<longrightarrow>
        attendance (snd (closeAttendance
          ((snd (closeAttendance w))\<lparr>clock := t, net := ns\<rparr>))) k =
        attendance (snd (closeAttendance w)) k) \<and>
     (iso_date t = getCurrentDate w \<and> list_all (\<lambda>x. x = None) (take 2 ns) \<longrightarrow>
        console_errors (snd (closeAttendance
          ((snd (closeAttendance w))\<lparr>clock := t, net := ns\<rparr>))) = console_errors w)"
proof -
  let ?D = "getCurrentDate w"
  let ?c = "\<lambda>t. merge_fields (no_fields\<lparr>status := Some ''closed'', timestamp := Some t\<rparr>)"
  note q = reliable_quiet [OF assms(3)]
  from assms(1,2) obtain cur day where
    d: "attendance w ''current'' = Some cur" "attendance w ?D = Some day"
    by auto
  have w1: "snd (closeAttendance w) =
      (sent (Update ''attendance'' ?D) (sent (Update ''attendance'' ''current'') w))
        \<lparr>attendance := (attendance w)
           (''current'' \<mapsto> ?c (clock w) cur, ?D \<mapsto> ?c (clock w) day),
          attendanceTimerInterval := None\<rparr>"
    using q d by (simp add: closeAttendance_def prim_defs Let_def sent_def)
  let ?v = "(snd (closeAttendance w))\<lparr>clock := t, net := ns\<rparr>"
  have v: "attendance ?v = (attendance w)
      (''current'' \<mapsto> ?c (clock w) cur, ?D \<mapsto> ?c (clock w) day)"
    "clock ?v = t" "getCurrentDate ?v = iso_date t" "net ?v = ns"
    "console_errors ?v = console_errors w"
    by (simp_all add: w1 getCurrentDate_def)
  have dt: "iso_date t \<noteq> ''current''"
    by (rule iso_date_not_current)
  have 1: "stored_status (attendance (snd (closeAttendance w)) ''current'') = Some ''closed''"
    "stored_status (attendance (snd (closeAttendance w)) ?D) = Some ''closed''"
    by (simp_all add: w1 stored_status_def)
  have 2: "stored_status (attendance (snd (closeAttendance ?v)) ''current'') = Some ''closed''"
    using dt q d by (simp add: close_attendance v stored_status_def split: option.split)
  have 3: "stored_status (attendance (snd (closeAttendance ?v)) ?D) = Some ''closed''"
    using dt q d by (simp add: close_attendance v stored_status_def split: option.split)
  have 4: "other_fields (attendance (snd (closeAttendance ?v)) ''current'') =
      other_fields (attendance (snd (closeAttendance w)) ''current'')"
    using dt q d
    by (simp add: close_attendance v other_fields_def merge_fields_def no_fields_def
        split: option.split)
  have 5: "other_fields (attendance (snd (closeAttendance ?v)) ?D) =
      other_fields (attendance (snd (closeAttendance w)) ?D)"
    using dt q d
    by (simp add: close_attendance v other_fields_def merge_fields_def no_fields_def
        split: option.split)
  have 6: "attendance (snd (closeAttendance ?v)) k = attendance (snd (closeAttendance w)) k"
    if "k \<noteq> ''current''" "k \<noteq> iso_date t" for k
    using that q d by (simp add: close_attendance v split: option.split)
  have 7: "console_errors (snd (closeAttendance ?v)) = console_errors w"
    if "iso_date t = ?D" "list_all (\<lambda>x. x = None) (take 2 ns)"
    using that v by (simp add: closeAttendance_def prim_defs Let_def)
  from 1 2 3 4 5 6 7 show ?thesis
    by blast
qed

text \<open>
  C6, as stated, fails. In a class where no session was ever opened the store holds no
  record; \<^verbatim>\<open>closeAttendance\<close> updates, and an update of a record that does not exist
  is rejected, so afterwards the pointer record still does not exist and its status is
  not \<^verbatim>\<open>closed\<close>. With both records open, a rejected first update leaves the
  pointer \<^verbatim>\<open>open\<close>. And closing a closed session is not a no-op: each update writes
  \<^verbatim>\<open>timestamp\<close> anew, so a second call two minutes after the first leaves another
  pointer record than the first.
\<close>

theorem closeAttendance_counterexample:
  "stored_status (attendance (snd (closeAttendance classroom)) ''current'') \<noteq> Some ''closed'' \<and>
   stored_status (attendance (snd (closeAttendance (session\<lparr>net := [Some ''unavailable'']\<rparr>)))
      ''current'') = Some ''open'' \<and>
   attendance (snd (closeAttendance session)) ''current'' =
     Some \<lparr>date = Some ''2026-11-03'', status = Some ''closed'',
           endTime = Some 1793664120000, students = None,
           timestamp = Some 1793664000000\<rparr> \<and>
   attendance (snd (closeAttendance
       ((snd (closeAttendance session))\<lparr>clock := 1793664121000\<rparr>))) ''current'' =
     Some \<lparr>date = Some ''2026-11-03'', status = Some ''closed'',
           endTime = Some 1793664120000, students = None,
           timestamp = Some 1793664121000\<rparr>"
  by (simp add: run_defs stored_status_def dates_late)

text \<open>
  C6, amended. \<^verbatim>\<open>closeAttendance\<close> never throws, in any starting state, neither on a
  first call nor on a second call after it, at whatever time \<open>t\<close> and over whatever
  network \<open>ns\<close> the second call runs. When the pointer record and the per-date record of
  today both exist and no request of the first call is rejected, the first call leaves
  status \<^verbatim>\<open>closed\<close> on both records. The second call leaves it there, and changes no
  field of the two records other than \<^verbatim>\<open>timestamp\<close>; it changes no other record
  either, except the per-date record of its own day when that is another day; it shows
  no alert, and when it runs on the same day and none of its two requests is rejected it
  logs no error. Closing a closed session changes nothing but the time stamps.
\<close>

theorem closeAttendance_idempotent:
  "fst (closeAttendance w) = Inr () \<and>
   fst (closeAttendance ((snd (closeAttendance w))\<lparr>clock := t, net := ns\<rparr>)) = Inr () \<and>
   (attendance w ''current'' \<noteq> None \<and> attendance w (getCurrentDate w) \<noteq> None \<and>
    reliable w \<longrightarrow>
      stored_status (attendance (snd (closeAttendance w)) ''current'') = Some ''closed'' \<and>
      stored_status (attendance (snd (closeAttendance w)) (getCurrentDate w)) =
        Some ''closed'' \<and>
      (let again = snd (closeAttendance ((snd (closeAttendance w))\<lparr>clock := t, net := ns\<rparr>))
       in stored_status (attendance again ''current'') = Some ''closed'' \<and>
          stored_status (attendance again (getCurrentDate w)) = Some ''closed'' \<and>
          other_fields (attendance again ''current'') =
            other_fields (attendance (snd (closeAttendance w)) ''current'') \<and>
          other_fields (attendance again (getCurrentDate w)) =
            other_fields (attendance (snd (closeAttendance w)) (getCurrentDate w)) \<and>
          (\<forall>k. k \<noteq> ''current'' \<and> k \<noteq> iso_date t \<longrightarrow>
             attendance again k = attendance (snd (closeAttendance w)) k) \<and>
          alerts again = alerts w \<and>
          (iso_date t = getCurrentDate w \<and> list_all (\<lambda>x. x = None) (take 2 ns) \<longrightarrow>
             console_errors again = console_errors w)))"
  using close_again [where w = w and t = t and ns = ns] by (simp add: close_returns Let_def)

theorem closeAttendance_idempotent_witness:
  "attendance session ''current'' \<noteq> None \<and>
   attendance session (getCurrentDate session) \<noteq> None \<and> reliable session \<and>
   stored_status (attendance (snd (closeAttendance session)) ''current'') = Some ''closed'' \<and>
   stored_status (attendance (snd (closeAttendance session)) ''2026-11-03'') =
     Some ''closed'' \<and>
   stored_status (attendance (snd (closeAttendance
     ((snd (closeAttendance session))\<lparr>clock := 1793664121000, net := []\<rparr>))) ''current'') =
     Some ''closed'' \<and>
   stored_status (attendance (snd (closeAttendance
     ((snd (closeAttendance session))\<lparr>clock := 1793664121000, net := []\<rparr>))) ''2026-11-03'') =
     Some ''closed'' \<and>
   other_fields (attendance (snd (closeAttendance
     ((snd (closeAttendance session))\<lparr>clock := 1793664121000, net := []\<rparr>))) ''current'') =
     other_fields (attendance (snd (closeAttendance session)) ''current'') \<and>
   console_errors (snd (closeAttendance
     ((snd (closeAttendance session))\<lparr>clock := 1793664121000, net := []\<rparr>))) = []"
proof -
  have h: "attendance session ''current'' \<noteq> None"
    "attendance session (getCurrentDate session) \<noteq> None" "reliable session"
    "console_errors session = []"
    unfolding today_session by (simp_all add: session_def classroom_def reliable_def)
  show ?thesis
    using closeAttendance_idempotent [where w = session and t = 1793664121000 and ns = "[]"] h
    by (simp add: today_session dates_late Let_def)
qed

section \<open>Which failures reach the caller\<close>

lemma mark_try_alert:
  "\<exists>m. alerts (snd (markStudentPresent_try t n w)) = alerts w @ [m] \<and>
       (fst (markStudentPresent_try t n w) \<longleftrightarrow> m = ''Marked present!'')"
  by (simp add: markStudentPresent_try_def markStudentPresent_catch_def closeAttendance_def
      prim_defs Let_def split: option.split)

lemma mark_alert:
  "\<exists>m. alerts (snd (markStudentPresent n w)) = alerts w @ [m] \<and>
       (fst (markStudentPresent n w) \<longleftrightarrow> m = ''Marked present!'')"
proof (cases "currentUser w")
  case None
  then show ?thesis
    by (simp add: markStudentPresent_eq)
next
  case (Some uid)
  show ?thesis
    using Some mark_try_alert [of "getCurrentDate w" "trim n" "snd (check_role uid ''student'' w)"]
    by (simp add: markStudentPresent_eq)
qed

lemma mark_try_quiet:
  "fst (markStudentPresent_try t n w) \<longrightarrow>
     requests (snd (markStudentPresent_try t n w)) = requests w @
       [Get ''attendance'' ''current'', Get ''attendance'' t, Update ''attendance'' t] \<and>
     list_all (\<lambda>x. x = None) (take 3 (net w))"
  by (simp add: markStudentPresent_try_def markStudentPresent_catch_def closeAttendance_def
      prim_defs Let_def split: option.split)

lemma mark_quiet:
  "fst (markStudentPresent n w) \<longrightarrow> \<not> rejected w (snd (markStudentPresent n w))"
proof (cases "currentUser w")
  case None
  then show ?thesis
    by (simp add: markStudentPresent_eq)
next
  case (Some uid)
  show ?thesis
    using Some mark_try_quiet [of "getCurrentDate w" "trim n" "snd (check_role uid ''student'' w)"]
    by (auto simp: markStudentPresent_eq rejected_def check_role_fst quiet_take_Suc)
qed

lemma open_try_quiet:
  "fst (openAttendance_try t e d w) = Inr () \<longrightarrow>
     requests (snd (openAttendance_try t e d w)) = requests w @
       [Set ''attendance'' ''current'', SetMerge ''attendance'' t] \<and>
     list_all (\<lambda>x. x = None) (take 2 (net w))"
  by (simp add: openAttendance_try_def openAttendance_catch_def prim_defs Let_def
      split: option.split)

lemma open_try_throws:
  "fst (openAttendance_try t e d w) \<noteq> Inr () \<longrightarrow>
     (\<exists>msg. fst (openAttendance_try t e d w) = Inl (Error msg))"
  by (simp add: openAttendance_try_def openAttendance_catch_def prim_defs Let_def
      split: option.split)

lemma open_quiet:
  "fst (openAttendance d w) = Inr () \<longrightarrow> \<not> rejected w (snd (openAttendance d w))"
proof (cases "currentUser w")
  case None
  then show ?thesis
    by (simp add: openAttendance_eq)
next
  case (Some uid)
  show ?thesis
    using Some open_try_quiet [of "getCurrentDate w" "clock w + d * 1000" d
        "snd (check_role uid ''teacher'' w)"]
    by (auto simp: openAttendance_eq rejected_def check_role_fst quiet_take_Suc)
qed

lemma open_throws:
  "fst (openAttendance d w) \<noteq> Inr () \<longrightarrow> (\<exists>msg. fst (openAttendance d w) = Inl (Error msg))"
proof (cases "currentUser w")
  case None
  then show ?thesis
    by (simp add: openAttendance_eq)
next
  case (Some uid)
  show ?thesis
    using Some open_try_throws [of "getCurrentDate w" "clock w + d * 1000" d
        "snd (check_role uid ''teacher'' w)"]
    by (simp add: openAttendance_eq)
qed

text \<open>
  C8, as stated, fails. The teacher is logged in, both records are open, and the first
  update of \<^verbatim>\<open>closeAttendance\<close> is rejected by the store. The call returns normally
  and shows no alert; the pointer is still \<^verbatim>\<open>open\<close>. The failure is only logged.
\<close>

theorem closeAttendance_swallows_counterexample:
  "rejected (session\<lparr>currentUser := Some ''t1'', net := [Some ''unavailable'']\<rparr>)
     (snd (closeAttendance
        (session\<lparr>currentUser := Some ''t1'', net := [Some ''unavailable'']\<rparr>))) \<and>
   fst (closeAttendance
      (session\<lparr>currentUser := Some ''t1'', net := [Some ''unavailable'']\<rparr>)) = Inr () \<and>
   alerts (snd (closeAttendance
      (session\<lparr>currentUser := Some ''t1'', net := [Some ''unavailable'']\<rparr>))) = [] \<and>
   stored_status (attendance (snd (closeAttendance
      (session\<lparr>currentUser := Some ''t1'', net := [Some ''unavailable'']\<rparr>))) ''current'') =
     Some ''open''"
  by (simp add: run_defs stored_status_def rejected_def)

text \<open>
  C8, amended. Every call of \<^verbatim>\<open>markStudentPresent\<close> that returns \<^verbatim>\<open>false\<close> has
  shown exactly one alert, and a call during which a request was rejected returns
  \<^verbatim>\<open>false\<close>. Every call of \<^verbatim>\<open>openAttendance\<close> during which a request was rejected
  throws an error. \<^verbatim>\<open>closeAttendance\<close>, whoever calls it, surfaces nothing: it returns
  normally and shows no alert, whatever happened to its requests.
\<close>

theorem failures_surfaced:
  "(fst (markStudentPresent n w) = False \<longrightarrow>
      (\<exists>m. alerts (snd (markStudentPresent n w)) = alerts w @ [m] \<and>
         m \<noteq> ''Marked present!'')) \<and>
   (rejected w (snd (markStudentPresent n w)) \<longrightarrow> fst (markStudentPresent n w) = False) \<and>
   (rejected w (snd (openAttendance d w)) \<longrightarrow>
      (\<exists>msg. fst (openAttendance d w) = Inl (Error msg))) \<and>
   fst (closeAttendance w) = Inr () \<and>
   alerts (snd (closeAttendance w)) = alerts w"
proof (intro conjI impI)
  assume f: "fst (markStudentPresent n w) = False"
  obtain m where m: "alerts (snd (markStudentPresent n w)) = alerts w @ [m]"
    "fst (markStudentPresent n w) \<longleftrightarrow> m = ''Marked present!''"
    using mark_alert [of n w] by (elim exE conjE)
  from f m(2) have "m \<noteq> ''Marked present!''"
    by simp
  with m(1) show "\<exists>m. alerts (snd (markStudentPresent n w)) = alerts w @ [m] \<and>
      m \<noteq> ''Marked present!''"
    by (intro exI conjI)
next
  assume "rejected w (snd (markStudentPresent n w))"
  with mark_quiet [of n w] show "fst (markStudentPresent n w) = False"
    by (cases "fst (markStudentPresent n w)") (simp_all only: simp_thms)
next
  assume r: "rejected w (snd (openAttendance d w))"
  with open_quiet [of d w] have "fst (openAttendance d w) \<noteq> Inr ()"
    by (intro notI) (simp only: simp_thms)
  with open_throws [of d w] show "\<exists>msg. fst (openAttendance d w) = Inl (Error msg)"
    by (elim impE) (simp_all only: simp_thms)
next
  show "fst (closeAttendance w) = Inr ()"
    by (rule close_returns)
next
  show "alerts (snd (closeAttendance w)) = alerts w"
    by (rule close_proj)
qed

theorem failures_surfaced_witness:
  "fst (markStudentPresent ''Alice''
      (session\<lparr>authModule := False, net := [Some ''unavailable'']\<rparr>)) = False \<and>
   rejected (session\<lparr>authModule := False, net := [Some ''unavailable'']\<rparr>)
     (snd (markStudentPresent ''Alice''
        (session\<lparr>authModule := False, net := [Some ''unavailable'']\<rparr>))) \<and>
   rejected (session\<lparr>authModule := False, net := [Some ''unavailable'']\<rparr>)
     (snd (openAttendance 120
        (session\<lparr>authModule := False, net := [Some ''unavailable'']\<rparr>))) \<and>
   alerts (snd (markStudentPresent ''Alice''
      (session\<lparr>authModule := False, net := [Some ''unavailable'']\<rparr>))) =
     [''Failed to mark attendance. Please try again.''] \<and>
   fst (openAttendance 120 (session\<lparr>authModule := False, net := [Some ''unavailable'']\<rparr>)) =
     Inl (Error ''unavailable'')"
proof -
  let ?w = "session\<lparr>authModule := False, net := [Some ''unavailable'']\<rparr>"
  have r1: "rejected ?w (snd (markStudentPresent ''Alice'' ?w))"
    by (simp add: run_defs rejected_def trim_def is_space_def)
  have r2: "rejected ?w (snd (openAttendance 120 ?w))"
    by (simp add: run_defs rejected_def)
  have a: "alerts (snd (markStudentPresent ''Alice'' ?w)) =
      [''Failed to mark attendance. Please try again.'']"
    by (simp add: run_defs trim_def is_space_def)
  have b: "fst (openAttendance 120 ?w) = Inl (Error ''unavailable'')"
    by (simp add: run_defs)
  from failures_surfaced [of "''Alice''" ?w 120] r1 r2 a b show ?thesis
    by simp
qed

section \<open>What is checked before the session is read\<close>

text \<open>
  C9, as stated, fails. The student \<^verbatim>\<open>s1\<close> is logged in and submits a name of three
  spaces. The call fails with \<^verbatim>\<open>Please enter your name\<close>, but only after the role
  lookup has read the user's document from the store: the name is checked after the
  role, and the role check itself is a remote read.
\<close>

theorem fail_fast_counterexample:
  "currentUser session = Some ''s1'' \<and> trim ''   '' = [] \<and> requests session = [] \<and>
   fst (markStudentPresent ''   '' session) = False \<and>
   alerts (snd (markStudentPresent ''   '' session)) = [''Please enter your name''] \<and>
   requests (snd (markStudentPresent ''   '' session)) = [Get ''users'' ''s1'']"
  by (simp add: run_defs trim_def is_space_def)

text \<open>
  C9, amended. A call of \<^verbatim>\<open>markStudentPresent\<close> by nobody logged in fails before any
  request is sent. A call that fails the role check, or passes it with a name that is
  empty after trimming, fails after exactly one request, the read of the caller's role
  (none when \<^verbatim>\<open>window.authModule\<close> is not defined). In all three cases no record of
  the attendance collection is read or written.
\<close>

theorem markStudentPresent_fail_fast:
  assumes "case currentUser w of
             None \<Rightarrow> True
           | Some uid \<Rightarrow> \<not> fst (check_role uid ''student'' w) \<or> trim n = []"
  shows "fst (markStudentPresent n w) = False \<and>
         attendance (snd (markStudentPresent n w)) = attendance w \<and>
         requests (snd (markStudentPresent n w)) =
           requests w @
             (case currentUser w of
                None \<Rightarrow> []
              | Some uid \<Rightarrow> if authModule w then [Get ''users'' uid] else [])"
  using assms by (auto simp: markStudentPresent_eq split: option.split)

theorem markStudentPresent_fail_fast_witness:
  "currentUser session = Some ''s1'' \<and> trim ''   '' = [] \<and>
   fst (markStudentPresent ''   '' session) = False \<and>
   attendance (snd (markStudentPresent ''   '' session)) = attendance session \<and>
   requests (snd (markStudentPresent ''   '' session)) = [Get ''users'' ''s1''] \<and>
   currentUser (session\<lparr>currentUser := None\<rparr>) = None \<and>
   requests (snd (markStudentPresent ''Alice'' (session\<lparr>currentUser := None\<rparr>))) = []"
proof -
  have a: "currentUser session = Some ''s1''" "trim ''   '' = []" "authModule session"
    "requests session = []"
    by (simp_all add: session_def classroom_def trim_def is_space_def)
  have b: "currentUser (session\<lparr>currentUser := None\<rparr>) = None"
    "requests (session\<lparr>currentUser := None\<rparr>) = []"
    by (simp_all add: session_def classroom_def)
  from markStudentPresent_fail_fast [of session "''   ''"]
    markStudentPresent_fail_fast [of "session\<lparr>currentUser := None\<rparr>" "''Alice''"] a b
  show ?thesis
    by simp
qed

section \<open>Marking a student present\<close>

text \<open>The order of the checks, for a caller who passes the role check.\<close>

lemma mark_order:
  assumes "currentUser w = Some uid" and "fst (check_role uid ''student'' w)"
    and "trim n \<noteq> []" and "reliable w"
  shows
    "let r = markStudentPresent n w;
         today = getCurrentDate w;
         pointer = attendance w ''current'';
         day = attendance w today;
         before = requests w @ (if authModule w then [Get ''users'' uid] else [])
     in if stored_status pointer \<noteq> Some ''open'' then
          fst r = False \<and> alerts (snd r) = alerts w @ [''Attendance is not open!''] \<and>
          attendance (snd r) = attendance w \<and>
          requests (snd r) = before @ [Get ''attendance'' ''current'']
        else if past (stored_endTime pointer) (clock w) then
          fst r = False \<and> alerts (snd r) = alerts w @ [''Attendance time has expired!''] \<and>
          attendance (snd r) = attendance (snd (closeAttendance w)) \<and>
          requests (snd r) = before @ [Get ''attendance'' ''current'',
            Update ''attendance'' ''current'', Update ''attendance'' today]
        else if stored_status day \<noteq> Some ''open'' then
          fst r = False \<and> alerts (snd r) = alerts w @ [''Attendance is not open!''] \<and>
          attendance (snd r) = attendance w \<and>
          requests (snd r) = before @ [Get ''attendance'' ''current'', Get ''attendance'' today]
        else if trim n \<in> set (presentStudents day) then
          fst r = False \<and>
          alerts (snd r) = alerts w @ [''You have already marked your attendance!''] \<and>
          attendance (snd r) = attendance w \<and>
          requests (snd r) = before @ [Get ''attendance'' ''current'', Get ''attendance'' today]
        else
          fst r = True \<and> alerts (snd r) = alerts w @ [''Marked present!''] \<and>
          presentStudents (attendance (snd r) today) = presentStudents day @ [trim n] \<and>
          (\<forall>k. k \<noteq> today \<longrightarrow> attendance (snd r) k = attendance w k) \<and>
          requests (snd r) = before @ [Get ''attendance'' ''current'', Get ''attendance'' today,
            Update ''attendance'' today]"
proof -
  let ?w1 = "snd (check_role uid ''student'' w)"
  let ?t = "getCurrentDate w"
  have run: "markStudentPresent n w = markStudentPresent_try ?t (trim n) ?w1"
    using assms(1-3) by (simp add: markStudentPresent_eq)
  note q = reliable_check_role [OF assms(4), of uid "''student''"]
  have same: "attendance ?w1 = attendance w" "clock ?w1 = clock w"
    by simp_all
  show ?thesis
  proof (cases "stored_status (attendance w ''current'') = Some ''open''")
    case False
    then show ?thesis
      using try_pointer_not_open [of ?w1 ?t "trim n"] q(1)
      by (simp add: run Let_def)
  next
    case op: True
    then have ex: "attendance w ''current'' \<noteq> None"
      by (auto dest: stored_status_SomeD)
    show ?thesis
    proof (cases "past (stored_endTime (attendance w ''current'')) (clock w)")
      case True
      let ?v = "sent (Get ''attendance'' ''current'') ?w1"
      have "attendance (snd (closeAttendance ?v)) = attendance (snd (closeAttendance w))"
        using q reliable_quiet [OF assms(4)]
        by (intro close_attendance_cong) simp_all
      moreover have "requests (snd (closeAttendance ?v)) = requests ?v @
          [Update ''attendance'' ''current'', Update ''attendance'' (getCurrentDate ?v)]"
        using q ex by (intro close_requests) simp_all
      ultimately show ?thesis
        using try_expired [of ?w1 ?t "trim n"] q(1) op True
        by (simp add: run Let_def)
    next
      case fresh: False
      show ?thesis
      proof (cases "stored_status (attendance w ?t) = Some ''open''")
        case False
        then show ?thesis
          using try_day_not_open [of ?w1 ?t "trim n"] q(1,2) op fresh
          by (simp add: run Let_def)
      next
        case day_open: True
        then obtain day where day: "attendance w ?t = Some day" "status day = Some ''open''"
          by (auto dest: stored_status_SomeD)
        show ?thesis
        proof (cases "trim n \<in> set (presentStudents (attendance w ?t))")
          case True
          then show ?thesis
            using try_already [of ?w1 ?t "trim n"] q(1,2) op fresh day_open
            by (simp add: run Let_def)
        next
          case False
          then show ?thesis
            using try_marked [of ?w1 ?t day "trim n"] q(1,2,3) op fresh day_open day
            by (simp add: run Let_def presentStudents_def)
        qed
      qed
    qed
  qed
qed

text \<open>
  C1, as stated, fails. The pointer record is open and not expired, the caller is a
  logged-in student with the name \<^verbatim>\<open>Alice\<close>, no request is rejected, and the name is not
  in today's roster; but the per-date record of today does not exist. The claim has the
  name appended and the call succeed. The code reads the per-date record, finds it not
  open, and returns \<^verbatim>\<open>false\<close> with \<^verbatim>\<open>Attendance is not open!\<close>; the roster is as before.
\<close>

theorem markStudentPresent_order_counterexample:
  "currentUser half_open = Some ''s1'' \<and> fst (check_role ''s1'' ''student'' half_open) \<and>
   trim ''Alice'' = ''Alice'' \<and> reliable half_open \<and>
   stored_status (attendance half_open ''current'') = Some ''open'' \<and>
   \<not> past (stored_endTime (attendance half_open ''current'')) (clock half_open) \<and>
   ''Alice'' \<notin> set (presentStudents (attendance half_open (getCurrentDate half_open))) \<and>
   fst (markStudentPresent ''Alice'' half_open) = False \<and>
   alerts (snd (markStudentPresent ''Alice'' half_open)) = [''Attendance is not open!''] \<and>
   presentStudents (attendance (snd (markStudentPresent ''Alice'' half_open)) ''2026-11-03'') = []"
  by (simp add: run_defs trim_def is_space_def reliable_def stored_status_def
      stored_endTime_def presentStudents_def)

text \<open>
  C1, amended. For a call of \<^verbatim>\<open>markStudentPresent\<close> by a logged-in caller who passes
  the role check, with a name that is not empty after trimming, and with no request
  rejected, the checks run in this order, each failure ending the call:
  \<^enum> the pointer record is read; if it does not exist or its status is not \<^verbatim>\<open>open\<close>, the
    call fails with \<^verbatim>\<open>Attendance is not open!\<close> and the store is unchanged;
  \<^enum> if the end time of the pointer has passed, \<^verbatim>\<open>closeAttendance\<close> runs, the call
    fails with \<^verbatim>\<open>Attendance time has expired!\<close>, and the store is what
    \<^verbatim>\<open>closeAttendance\<close> leaves;
  \<^enum> the per-date record of today is read; if it does not exist or its status is not
    \<^verbatim>\<open>open\<close>, the call fails with \<^verbatim>\<open>Attendance is not open!\<close>, store unchanged;
  \<^enum> if the trimmed name is in the roster of today, the call fails with
    \<^verbatim>\<open>You have already marked your attendance!\<close>, store unchanged;
  \<^enum> otherwise one update with \<^verbatim>\<open>arrayUnion\<close> appends the trimmed name to the roster
    of today and the call returns \<^verbatim>\<open>true\<close>.
  The requests sent are exactly those listed in each case, after the read of the role.
\<close>

theorem markStudentPresent_order:
  assumes "currentUser w = Some uid" and "fst (check_role uid ''student'' w)"
    and "trim n \<noteq> []" and "reliable w"
  shows
    "let r = markStudentPresent n w;
         today = getCurrentDate w;
         pointer = attendance w ''current'';
         day = attendance w today;
         before = requests w @ (if authModule w then [Get ''users'' uid] else [])
     in if stored_status pointer \<noteq> Some ''open'' then
          fst r = False \<and> alerts (snd r) = alerts w @ [''Attendance is not open!''] \<and>
          attendance (snd r) = attendance w \<and>
          requests (snd r) = before @ [Get ''attendance'' ''current'']
        else if past (stored_endTime pointer) (clock w) then
          fst r = False \<and> alerts (snd r) = alerts w @ [''Attendance time has expired!''] \<and>
          attendance (snd r) = attendance (snd (closeAttendance w)) \<and>
          requests (snd r) = before @ [Get ''attendance'' ''current'',
            Update ''attendance'' ''current'', Update ''attendance'' today]
        else if stored_status day \<noteq> Some ''open'' then
          fst r = False \<and> alerts (snd r) = alerts w @ [''Attendance is not open!''] \<and>
          attendance (snd r) = attendance w \<and>
          requests (snd r) = before @ [Get ''attendance'' ''current'', Get ''attendance'' today]
        else if trim n \<in> set (presentStudents day) then
          fst r = False \<and>
          alerts (snd r) = alerts w @ [''You have already marked your attendance!''] \<and>
          attendance (snd r) = attendance w \<and>
          requests (snd r) = before @ [Get ''attendance'' ''current'', Get ''attendance'' today]
        else
          fst r = True \<and> alerts (snd r) = alerts w @ [''Marked present!''] \<and>
          presentStudents (attendance (snd r) today) = presentStudents day @ [trim n] \<and>
          (\<forall>k. k \<noteq> today \<longrightarrow> attendance (snd r) k = attendance w k) \<and>
          requests (snd r) = before @ [Get ''attendance'' ''current'', Get ''attendance'' today,
            Update ''attendance'' today]"
  using assms by (rule mark_order)

theorem markStudentPresent_order_witness:
  "currentUser session = Some ''s1'' \<and> fst (check_role ''s1'' ''student'' session) \<and>
   trim ''Alice'' \<noteq> [] \<and> reliable session \<and>
   fst (markStudentPresent ''Alice'' session) = True \<and>
   alerts (snd (markStudentPresent ''Alice'' session)) = [''Marked present!''] \<and>
   presentStudents (attendance (snd (markStudentPresent ''Alice'' session)) ''2026-11-03'') =
     [''Alice'']"
proof -
  have a: "currentUser session = Some ''s1''" "trim ''Alice'' \<noteq> []" "reliable session"
    by (simp_all add: session_def classroom_def trim_def is_space_def reliable_def)
  have b: "stored_status (attendance session ''current'') = Some ''open''"
    "\<not> past (stored_endTime (attendance session ''current'')) (clock session)"
    "stored_status (attendance session ''2026-11-03'') = Some ''open''"
    "presentStudents (attendance session ''2026-11-03'') = []"
    "alerts session = []" "trim ''Alice'' = ''Alice''"
    by (simp_all add: session_def classroom_def stored_status_def stored_endTime_def
        past_def presentStudents_def trim_def is_space_def)
  from markStudentPresent_order [OF a(1) student_session a(2) a(3)] a b student_session
  show ?thesis
    by (simp add: Let_def today_session)
qed

section \<open>Marking after the end time\<close>

lemma try_past:
  assumes "past (stored_endTime (attendance w ''current'')) (clock w)"
  shows "fst (markStudentPresent_try t n w) = False"
    and "presentStudents (attendance (snd (markStudentPresent_try t n w)) k) =
           presentStudents (attendance w k)"
  using assms
  by (cases rule: try_cases [of w t n];
      simp add: markStudentPresent_catch_def close_roster)+

lemma mark_past:
  assumes "past (stored_endTime (attendance w ''current'')) (clock w)"
  shows "fst (markStudentPresent n w) = False"
    and "presentStudents (attendance (snd (markStudentPresent n w)) k) =
           presentStudents (attendance w k)"
proof -
  have "fst (markStudentPresent n w) = False \<and>
      presentStudents (attendance (snd (markStudentPresent n w)) k) =
        presentStudents (attendance w k)"
  proof (cases "currentUser w")
    case None
    then show ?thesis
      by (simp add: markStudentPresent_eq)
  next
    case (Some uid)
    have "past (stored_endTime (attendance (snd (check_role uid ''student'' w)) ''current''))
        (clock (snd (check_role uid ''student'' w)))"
      using assms by simp
    from try_past(1) [OF this] try_past(2) [OF this] Some show ?thesis
      by (simp add: markStudentPresent_eq)
  qed
  then show "fst (markStudentPresent n w) = False"
    and "presentStudents (attendance (snd (markStudentPresent n w)) k) =
           presentStudents (attendance w k)"
    by simp_all
qed

text \<open>
  At a clock that stands still: when the pointer record holds an end time that the clock
  has passed, every call of \<^verbatim>\<open>markStudentPresent\<close> returns \<^verbatim>\<open>false\<close> and leaves every
  roster as it was; the call of a student in a session still stored as open closes the
  pointer record and today's per-date record.
\<close>

lemma mark_expired:
  assumes "stored_endTime (attendance w ''current'') = Some e" and "e < clock w"
  shows "fst (markStudentPresent n w) = False \<and>
         (\<forall>k. presentStudents (attendance (snd (markStudentPresent n w)) k) =
                presentStudents (attendance w k)) \<and>
         (currentUser w = Some uid \<and> fst (check_role uid ''student'' w) \<and> trim n \<noteq> [] \<and>
          stored_status (attendance w ''current'') = Some ''open'' \<and> reliable w \<longrightarrow>
            alerts (snd (markStudentPresent n w)) =
              alerts w @ [''Attendance time has expired!''] \<and>
            stored_status (attendance (snd (markStudentPresent n w)) ''current'') =
              Some ''closed'' \<and>
            (attendance w (getCurrentDate w) \<noteq> None \<longrightarrow>
               stored_status (attendance (snd (markStudentPresent n w)) (getCurrentDate w)) =
                 Some ''closed''))"
proof -
  from assms have p: "past (stored_endTime (attendance w ''current'')) (clock w)"
    by (simp add: past_def)
  have 1: "fst (markStudentPresent n w) = False"
    and 2: "\<forall>k. presentStudents (attendance (snd (markStudentPresent n w)) k) =
                presentStudents (attendance w k)"
    using mark_past [OF p] by simp_all
  have 3: "alerts (snd (markStudentPresent n w)) =
        alerts w @ [''Attendance time has expired!''] \<and>
      stored_status (attendance (snd (markStudentPresent n w)) ''current'') =
        Some ''closed'' \<and>
      (attendance w (getCurrentDate w) \<noteq> None \<longrightarrow>
         stored_status (attendance (snd (markStudentPresent n w)) (getCurrentDate w)) =
           Some ''closed'')"
    if h: "currentUser w = Some uid" "fst (check_role uid ''student'' w)" "trim n \<noteq> []"
      "stored_status (attendance w ''current'') = Some ''open''" "reliable w"
  proof -
    from h(4) obtain cur where cur: "attendance w ''current'' = Some cur"
      by (auto dest: stored_status_SomeD)
    note q = reliable_quiet [OF h(5)]
    from mark_order [OF h(1,2,3,5)] h(4) p
    have "alerts (snd (markStudentPresent n w)) = alerts w @ [''Attendance time has expired!'']"
      and "attendance (snd (markStudentPresent n w)) = attendance (snd (closeAttendance w))"
      by (simp_all add: Let_def)
    then show ?thesis
      using q cur by (auto simp: close_attendance stored_status_def split: option.split)
  qed
  from 1 2 3 show ?thesis
    by blast
qed

text \<open>
  C3, as stated, fails twice.

  The expiry test reads the clock once, after the pointer record has arrived; the read of
  today's record and the write of the name come after two more \<^verbatim>\<open>await\<close>s and read no
  clock. In the session that ends at 1793664120000, Alice calls one second before the
  end: her call reads the pointer record 100 milliseconds before the end time and waits
  for today's record; that arrives 200 milliseconds after the end time, and 500
  milliseconds after it the call has appended her name and returns \<^verbatim>\<open>true\<close>. So a
  call does add a name after the end time has passed.

  And \<^verbatim>\<open>closeAttendance\<close> closes the per-date record of the day on which it runs, not
  that of the session. The session that the teacher opened at 23:59:00 for 120 seconds
  lives in the record of 3 November; a call at 00:02:00 of 4 November finds it expired
  and closes the pointer record, the update of the record of 4 November is rejected
  because there is none, and the record of the session stays \<^verbatim>\<open>open\<close>.
\<close>

theorem markStudentPresent_expired_counterexample:
  "stored_endTime (attendance session ''current'') = Some 1793664120000 \<and>
   fst (timed_run [1793664119000, 1793664119300, 1793664119900] ''Alice'' (Start, session)) =
     AwaitDay ''2026-11-03'' \<and>
   fst (timed_run [1793664119000, 1793664119300, 1793664119900, 1793664120200, 1793664120500]
          ''Alice'' (Start, session)) = Returned True \<and>
   presentStudents (attendance (snd (timed_run
       [1793664119000, 1793664119300, 1793664119900, 1793664120200, 1793664120500]
       ''Alice'' (Start, session))) ''2026-11-03'') = [''Alice''] \<and>
   attendance (snd (openAttendance 120 (classroom\<lparr>clock := 1793750340000\<rparr>))) =
     attendance overnight \<and>
   stored_endTime (attendance overnight ''current'') = Some 1793750460000 \<and>
   clock overnight = 1793750520000 \<and>
   fst (markStudentPresent ''Bob'' overnight) = False \<and>
   alerts (snd (markStudentPresent ''Bob'' overnight)) = [''Attendance time has expired!''] \<and>
   stored_status (attendance (snd (markStudentPresent ''Bob'' overnight)) ''current'') =
     Some ''closed'' \<and>
   stored_status (attendance (snd (markStudentPresent ''Bob'' overnight)) ''2026-11-03'') =
     Some ''open''"
  by (simp add: run_defs overnight_def date_before_midnight date_after_midnight
      date_in_flight name_checked_def stored_endTime_def stored_status_def
      presentStudents_def trim_def is_space_def)

text \<open>
  C3, amended. Let the pointer record hold an end time (for a session opened for \<open>d\<close>
  seconds at time \<open>t\<close> it is \<open>t + 1000 * d\<close>), and let a call of \<^verbatim>\<open>markStudentPresent\<close>
  start after it: every reading of the clock during the call is past the end time. Then
  the call, whoever makes it, whatever the network does and however long it is
  suspended, never returns \<^verbatim>\<open>true\<close> and leaves every roster as it was. When moreover
  the caller is a logged-in student with a non-empty name, the stored status of the
  pointer is still \<^verbatim>\<open>open\<close>, no request is rejected and the call has had its five
  stretches, it has returned \<^verbatim>\<open>false\<close> after the alert \<^verbatim>\<open>Attendance time has expired!\<close>
  and the stored status of the pointer record is \<^verbatim>\<open>closed\<close>; so is that of the per-date
  record of the day \<open>D\<close> when the whole call runs on that day and the record exists.
  Nothing is said of a call that is under way when the end time passes, nor of the
  per-date record of a session that was opened on an earlier day.
\<close>

theorem markStudentPresent_expired:
  assumes "stored_endTime (attendance w ''current'') = Some e"
    and "list_all (\<lambda>t. e < t) ts"
  shows "fst (timed_run ts n (Start, w)) \<noteq> Returned True \<and>
         (\<forall>k. presentStudents (attendance (snd (timed_run ts n (Start, w))) k) =
                presentStudents (attendance w k)) \<and>
         (is_student (users w) w \<and> trim n \<noteq> [] \<and>
          stored_status (attendance w ''current'') = Some ''open'' \<and> reliable w \<and>
          5 \<le> length ts \<longrightarrow>
            fst (timed_run ts n (Start, w)) = Returned False \<and>
            alerts (snd (timed_run ts n (Start, w))) =
              alerts w @ [''Attendance time has expired!''] \<and>
            stored_status (attendance (snd (timed_run ts n (Start, w))) ''current'') =
              Some ''closed'' \<and>
            (list_all (\<lambda>t. iso_date t = D) ts \<and> attendance w D \<noteq> None \<longrightarrow>
               stored_status (attendance (snd (timed_run ts n (Start, w))) D) =
                 Some ''closed''))"
proof -
  have b: "before_roster (fst (Start, w))"
    "stored_endTime (attendance (snd (Start, w)) ''current'') = Some e"
    using assms(1) by simp_all
  have 1: "fst (timed_run ts n (Start, w)) \<noteq> Returned True"
    using timed_run_before [OF b assms(2), of n] by auto
  have 2: "\<forall>k. presentStudents (attendance (snd (timed_run ts n (Start, w))) k) =
      presentStudents (attendance w k)"
    using timed_run_before [OF b assms(2), of n] by simp
  from 1 2 expired_from_start [OF _ _ _ assms(1) _ assms(2), of n D] show ?thesis
    by blast
qed

theorem markStudentPresent_expired_witness:
  "attendance session = attendance (snd (openAttendance 120 classroom)) \<and>
   stored_endTime (attendance session ''current'') = Some (clock classroom + 120 * 1000) \<and>
   clock classroom + 120 * 1000 < 1793664121000 \<and>
   fst (timed_run [1793664121000, 1793664122000, 1793664123000, 1793664124000, 1793664125000]
          ''Bob'' (Start, session)) = Returned False \<and>
   presentStudents (attendance (snd (timed_run
       [1793664121000, 1793664122000, 1793664123000, 1793664124000, 1793664125000]
       ''Bob'' (Start, session))) ''2026-11-03'') = [] \<and>
   alerts (snd (timed_run
       [1793664121000, 1793664122000, 1793664123000, 1793664124000, 1793664125000]
       ''Bob'' (Start, session))) = [''Attendance time has expired!''] \<and>
   stored_status (attendance (snd (timed_run
       [1793664121000, 1793664122000, 1793664123000, 1793664124000, 1793664125000]
       ''Bob'' (Start, session))) ''current'') = Some ''closed'' \<and>
   stored_status (attendance (snd (timed_run
       [1793664121000, 1793664122000, 1793664123000, 1793664124000, 1793664125000]
       ''Bob'' (Start, session))) ''2026-11-03'') = Some ''closed''"
proof -
  let ?ts = "[1793664121000, 1793664122000, 1793664123000, 1793664124000, 1793664125000]
    :: int list"
  have a: "stored_endTime (attendance session ''current'') = Some (clock classroom + 120 * 1000)"
    "list_all (\<lambda>t. clock classroom + 120 * 1000 < t) ?ts"
    by (simp_all add: session_def classroom_def stored_endTime_def)
  have b: "is_student (users session) session" "trim ''Bob'' \<noteq> []"
    "stored_status (attendance session ''current'') = Some ''open''" "reliable session"
    "attendance session ''2026-11-03'' \<noteq> None" "alerts session = []"
    "presentStudents (attendance session ''2026-11-03'') = []" "5 \<le> length ?ts"
    "clock classroom + 120 * 1000 < 1793664121000"
    by (simp_all add: session_def classroom_def stored_status_def reliable_def
        trim_def is_space_def presentStudents_def is_student_def)
  have c: "list_all (\<lambda>t. iso_date t = ''2026-11-03'') ?ts"
    by (simp add: dates_late)
  from markStudentPresent_expired [OF a, of "''Bob''" "''2026-11-03''"] a b c session_opened
  show ?thesis
    by simp
qed

section \<open>Marking twice\<close>

lemma try_True_inv:
  assumes "markStudentPresent_try t n v = (True, w1)"
  shows "\<exists>day. stored_status (attendance v ''current'') = Some ''open'' \<and>
           \<not> past (stored_endTime (attendance v ''current'')) (clock v) \<and>
           attendance v t = Some day \<and> status day = Some ''open'' \<and>
           n \<notin> set (presentStudents (attendance v t)) \<and>
           attendance w1 = (attendance v)(t \<mapsto>
             day\<lparr>students := Some (presentStudents (attendance v t) @ [n])\<rparr>) \<and>
           users w1 = users v \<and> currentUser w1 = currentUser v \<and>
           authModule w1 = authModule v \<and> clock w1 = clock v \<and>
           alerts w1 = alerts v @ [''Marked present!'']"
  using assms
  by (cases rule: try_cases [of v t n]) (auto simp: markStudentPresent_catch_def)

lemma mark_True_inv:
  assumes "markStudentPresent n w = (True, w1)"
  shows "\<exists>uid day. currentUser w = Some uid \<and> fst (check_role uid ''student'' w) \<and>
           trim n \<noteq> [] \<and>
           stored_status (attendance w ''current'') = Some ''open'' \<and>
           \<not> past (stored_endTime (attendance w ''current'')) (clock w) \<and>
           attendance w (getCurrentDate w) = Some day \<and> status day = Some ''open'' \<and>
           trim n \<notin> set (presentStudents (attendance w (getCurrentDate w))) \<and>
           attendance w1 = (attendance w)(getCurrentDate w \<mapsto>
             day\<lparr>students :=
               Some (presentStudents (attendance w (getCurrentDate w)) @ [trim n])\<rparr>) \<and>
           users w1 = users w \<and> currentUser w1 = currentUser w \<and>
           authModule w1 = authModule w \<and> clock w1 = clock w \<and>
           alerts w1 = alerts w @ [''Marked present!'']"
proof -
  from assms obtain uid where u: "currentUser w = Some uid"
    by (cases "currentUser w") (simp_all add: markStudentPresent_eq)
  from assms u have ok: "fst (check_role uid ''student'' w)" and ne: "trim n \<noteq> []"
    and run: "markStudentPresent_try (getCurrentDate w) (trim n)
      (snd (check_role uid ''student'' w)) = (True, w1)"
    by (simp_all add: markStudentPresent_eq split: if_split_asm)
  from try_True_inv [OF run] u ok ne show ?thesis
    by simp
qed

lemma count_list_append_new:
  "x \<notin> set xs \<Longrightarrow> count_list (xs @ [x]) x = 1"
  by (simp add: count_list_0_iff)

text \<open>
  C4. Let a first call of \<^verbatim>\<open>markStudentPresent\<close> have returned \<^verbatim>\<open>true\<close>, and let a
  second call come with a name that trims to the same string (the comparison is exact,
  so case and inner spaces count). Then
  \<^item> after the first call the roster of that day holds the trimmed name exactly once;
  \<^item> after the second call it still holds it exactly once, at whatever time the second
    call comes and whatever the network does;
  \<^item> when the second call comes on the same day, before the end time, and none of its
    requests is rejected, it returns \<^verbatim>\<open>false\<close> with
    \<^verbatim>\<open>You have already marked your attendance!\<close> and leaves the store unchanged;
  \<^item> in particular so does a second call right after the first, with an unchanged clock.
\<close>

theorem markStudentPresent_retry:
  assumes "markStudentPresent n1 w = (True, w1)" and "trim n2 = trim n1"
  shows
    "count_list (presentStudents (attendance w1 (getCurrentDate w))) (trim n1) = 1 \<and>
     (\<forall>t ns. count_list (presentStudents (attendance
         (snd (markStudentPresent n2 (w1\<lparr>clock := t, net := ns\<rparr>))) (getCurrentDate w)))
         (trim n1) = 1) \<and>
     (\<forall>t ns. iso_date t = getCurrentDate w \<and>
        \<not> past (stored_endTime (attendance w1 ''current'')) t \<and>
        list_all (\<lambda>x. x = None) ns \<longrightarrow>
          fst (markStudentPresent n2 (w1\<lparr>clock := t, net := ns\<rparr>)) = False \<and>
          alerts (snd (markStudentPresent n2 (w1\<lparr>clock := t, net := ns\<rparr>))) =
            alerts w1 @ [''You have already marked your attendance!''] \<and>
          attendance (snd (markStudentPresent n2 (w1\<lparr>clock := t, net := ns\<rparr>))) =
            attendance w1) \<and>
     (reliable w1 \<longrightarrow>
        fst (markStudentPresent n2 w1) = False \<and>
        alerts (snd (markStudentPresent n2 w1)) =
          alerts w1 @ [''You have already marked your attendance!''] \<and>
        attendance (snd (markStudentPresent n2 w1)) = attendance w1)"
proof -
  let ?d = "getCurrentDate w"
  let ?nm = "trim n1"
  from mark_True_inv [OF assms(1)] obtain uid day where
    u: "currentUser w = Some uid" and ok: "fst (check_role uid ''student'' w)"
    and ne: "?nm \<noteq> []"
    and op: "stored_status (attendance w ''current'') = Some ''open''"
    and fresh: "\<not> past (stored_endTime (attendance w ''current'')) (clock w)"
    and day: "attendance w ?d = Some day" "status day = Some ''open''"
    and new: "?nm \<notin> set (presentStudents (attendance w ?d))"
    and att: "attendance w1 = (attendance w)(?d \<mapsto>
        day\<lparr>students := Some (presentStudents (attendance w ?d) @ [?nm])\<rparr>)"
    and same: "users w1 = users w" "currentUser w1 = currentUser w"
      "authModule w1 = authModule w" "clock w1 = clock w"
    by blast
  have roster1: "presentStudents (attendance w1 ?d) = presentStudents (attendance w ?d) @ [?nm]"
    by (simp add: att presentStudents_def)
  have once: "count_list (presentStudents (attendance w1 ?d)) ?nm = 1"
    using count_list_append_new [OF new] by (simp add: roster1)
  have member: "?nm \<in> set (presentStudents (attendance w1 ?d))"
    by (simp add: roster1)
  have pointer1: "attendance w1 ''current'' = attendance w ''current''"
    by (simp add: att)
  have day1: "stored_status (attendance w1 ?d) = Some ''open''"
    using day by (simp add: att stored_status_def)
  have still: "count_list (presentStudents (attendance
      (snd (markStudentPresent n2 (w1\<lparr>clock := t, net := ns\<rparr>))) ?d)) ?nm = 1" for t ns
    using mark_roster [of n2 "w1\<lparr>clock := t, net := ns\<rparr>" ?d] member once assms(2)
    by auto
  have again: "fst (markStudentPresent n2 (w1\<lparr>clock := t, net := ns\<rparr>)) = False \<and>
      alerts (snd (markStudentPresent n2 (w1\<lparr>clock := t, net := ns\<rparr>))) =
        alerts w1 @ [''You have already marked your attendance!''] \<and>
      attendance (snd (markStudentPresent n2 (w1\<lparr>clock := t, net := ns\<rparr>))) = attendance w1"
    if h: "iso_date t = ?d" "\<not> past (stored_endTime (attendance w1 ''current'')) t"
      "list_all (\<lambda>x. x = None) ns" for t ns
  proof -
    let ?w2 = "w1\<lparr>clock := t, net := ns\<rparr>"
    have today2: "getCurrentDate ?w2 = ?d"
      using h(1) by (simp add: getCurrentDate_def)
    have u2: "currentUser ?w2 = Some uid"
      using u same by simp
    have ok2: "fst (check_role uid ''student'' ?w2)"
      using ok same h(3) by (simp add: check_role_fst next_outcome_reliable)
    have ne2: "trim n2 \<noteq> []"
      using ne assms(2) by simp
    have rel2: "reliable ?w2"
      using h(3) by (simp add: reliable_def)
    from mark_order [OF u2 ok2 ne2 rel2] today2 op h(2) day1 member assms(2)
    show ?thesis
      by (simp add: Let_def pointer1)
  qed
  have now: "fst (markStudentPresent n2 w1) = False \<and>
      alerts (snd (markStudentPresent n2 w1)) =
        alerts w1 @ [''You have already marked your attendance!''] \<and>
      attendance (snd (markStudentPresent n2 w1)) = attendance w1" if r: "reliable w1"
  proof -
    have "w1\<lparr>clock := clock w1, net := net w1\<rparr> = w1"
      by simp
    moreover have "iso_date (clock w1) = ?d"
      using same by (simp add: getCurrentDate_def)
    moreover have "\<not> past (stored_endTime (attendance w1 ''current'')) (clock w1)"
      using fresh same by (simp add: pointer1)
    moreover have "list_all (\<lambda>x. x = None) (net w1)"
      using r by (simp add: reliable_def)
    ultimately show ?thesis
      using again [of "clock w1" "net w1"] by simp
  qed
  from once still again now show ?thesis
    by blast
qed

theorem markStudentPresent_retry_witness:
  "markStudentPresent ''Alice'' session = (True, snd (markStudentPresent ''Alice'' session)) \<and>
   trim '' Alice '' = trim ''Alice'' \<and>
   reliable (snd (markStudentPresent ''Alice'' session)) \<and>
   fst (markStudentPresent '' Alice '' (snd (markStudentPresent ''Alice'' session))) = False \<and>
   alerts (snd (markStudentPresent '' Alice '' (snd (markStudentPresent ''Alice'' session)))) =
     [''Marked present!'', ''You have already marked your attendance!''] \<and>
   count_list (presentStudents (attendance
     (snd (markStudentPresent '' Alice '' (snd (markStudentPresent ''Alice'' session))))
     ''2026-11-03'')) ''Alice'' = 1"
proof -
  let ?w1 = "snd (markStudentPresent ''Alice'' session)"
  have f: "fst (markStudentPresent ''Alice'' session) = True"
    "alerts ?w1 = [''Marked present!'']" "net ?w1 = []" "clock ?w1 = clock session"
    by (simp_all add: run_defs trim_def is_space_def)
  then have run: "markStudentPresent ''Alice'' session = (True, ?w1)"
    by (simp add: prod_eq_iff)
  have t: "trim '' Alice '' = trim ''Alice''" "trim ''Alice'' = ''Alice''"
    by (simp_all add: trim_def is_space_def)
  have r: "reliable ?w1"
    using f(3) by (simp add: reliable_def)
  have "?w1\<lparr>clock := clock ?w1, net := net ?w1\<rparr> = ?w1"
    by simp
  with markStudentPresent_retry [OF run t(1)] run t r f(2) show ?thesis
    by (simp add: today_session)
qed

section \<open>Concurrent calls\<close>

lemma concurrent_marks_aux:
  assumes op: "open_session s D" and rd: "list_all (ready s D) (clients s)"
    and dn: "distinct (map (\<lambda>c. trim (studentName c)) (clients s))"
    and dr: "distinct (presentStudents (store_attendance s D))"
  shows "list_all (\<lambda>c. phase c \<noteq> Finished False) (clients (run_schedule sched s))"
    and "\<forall>i < length (clients s). 5 \<le> count_list sched i \<Longrightarrow>
      list_all (\<lambda>c. phase c = Finished True) (clients (run_schedule sched s)) \<and>
      set (presentStudents (store_attendance (run_schedule sched s) D)) =
        set (presentStudents (store_attendance s D)) \<union>
        set (map (\<lambda>c. trim (studentName c)) (clients s)) \<and>
      distinct (presentStudents (store_attendance (run_schedule sched s) D)) \<and>
      length (presentStudents (store_attendance (run_schedule sched s) D)) =
        length (presentStudents (store_attendance s D)) + length (clients s)"
proof -
  let ?before = "presentStudents (store_attendance s D)"
  let ?names = "map (\<lambda>c. trim (studentName c)) (clients s)"
  let ?f = "run_schedule sched s"
  let ?after = "presentStudents (store_attendance ?f D)"
  have dj: "set ?names \<inter> set ?before = {}"
    using rd by (rule names_fresh)
  from run_schedule_inv [OF marks_inv_start [OF op rd dr] dn dj, of sched]
  have inv: "marks_inv D ?before ?names (store_users s) (store_attendance s ''current'') ?f"
    and rk: "\<And>i. i < length (clients s) \<Longrightarrow>
      rank (phase (clients ?f ! i)) \<le> rank (phase (clients s ! i)) - count_list sched i"
    by simp_all
  from inv have fl: "list_all (in_flight D (store_users s) (store_attendance s ''current''))
      (clients ?f)"
    and dR: "distinct ?after"
    and ro: "set ?after = set ?before \<union>
      {?names ! j | j. j < length ?names \<and> phase (clients ?f ! j) = Finished True}"
    by (simp_all add: marks_inv_def)
  have nofail: "phase c \<noteq> Finished False"
    if "in_flight D (store_users s) (store_attendance s ''current'') c" for c
    using that by (auto simp: in_flight_def)
  show "list_all (\<lambda>c. phase c \<noteq> Finished False) (clients ?f)"
    using fl nofail by (simp add: list_all_iff)
  assume fair: "\<forall>i < length (clients s). 5 \<le> count_list sched i"
  have fin: "phase (clients ?f ! i) = Finished True" if i: "i < length (clients s)" for i
  proof -
    have "rank (phase (clients s ! i)) \<le> 5"
      by (cases "phase (clients s ! i)") simp_all
    with rk [OF i] fair i have "rank (phase (clients ?f ! i)) = 0"
      by fastforce
    then obtain b where b: "phase (clients ?f ! i) = Finished b"
      by (auto simp: rank_0)
    from fl i have "in_flight D (store_users s) (store_attendance s ''current'') (clients ?f ! i)"
      by (simp add: list_all_length)
    with b nofail show ?thesis
      by (cases b) auto
  qed
  then have all: "list_all (\<lambda>c. phase c = Finished True) (clients ?f)"
    by (simp add: list_all_length)
  have "{?names ! j | j. j < length ?names \<and> phase (clients ?f ! j) = Finished True} =
      {?names ! j | j. j < length ?names}"
    using fin by auto
  also have "\<dots> = set ?names"
    by (simp only: set_conv_nth)
  finally have set_eq: "set ?after = set ?before \<union> set ?names"
    using ro by simp
  have c1: "card (set ?after) = length ?after"
    using dR by (rule distinct_card)
  have c2: "card (set ?before) = length ?before"
    using dr by (rule distinct_card)
  have c3: "card (set ?names) = length ?names"
    using dn by (rule distinct_card)
  have "set ?before \<inter> set ?names = {}"
    using dj by (simp only: Int_commute)
  then have "card (set ?before \<union> set ?names) = card (set ?before) + card (set ?names)"
    by (intro card_Un_disjoint) simp_all
  with c1 c2 c3 have "length ?after = length ?before + length ?names"
    by (simp only: set_eq [symmetric])
  then have len: "length ?after = length ?before + length (clients s)"
    by simp
  from all set_eq dR len
  show "list_all (\<lambda>c. phase c = Finished True) (clients ?f) \<and>
      set ?after = set ?before \<union> set ?names \<and> distinct ?after \<and>
      length ?after = length ?before + length (clients s)"
    by simp
qed



end
